theory Spec2Isabelle
  imports Main "HOL-Library.AList" "HOL-Library.Sublist" "HOL-Library.Word"
begin

section \<open>Python values as used by the ClaimMate workspace\<close>

text \<open>
  A Python \<open>str\<close> is a sequence of Unicode code points, so it is modelled as a list of
  natural numbers; \<open>len\<close> is \<open>length\<close> and slicing \<open>s[:n]\<close> is \<open>take n\<close>.  ASCII literals of
  the source are written \<open>ustr ''...''\<close>; a line feed is the code point 10.
\<close>

type_synonym pystr = "nat list"

definition ustr :: "string \<Rightarrow> pystr" where
  "ustr cs = map of_char cs"

text \<open>
  The workspace aggregate is whatever \<open>json.load\<close> produced, later mutated in place: a
  tree of JSON values.  A Python \<open>dict\<close> keeps insertion order, so an object is an
  association list.  A float is carried as its \<open>repr\<close> text, which is all the program ever
  observes of one (its truth value and its formatting).
\<close>

datatype json =
    JNull
  | JBool bool
  | JInt int
  | JFloat pystr
  | JStr pystr
  | JArr "json list"
  | JObj "(pystr \<times> json) list"

type_synonym pydict = "(pystr \<times> json) list"

text \<open>\<open>k in d\<close>, \<open>d[k] = v\<close> and \<open>d.get(k, default)\<close> on a dict.\<close>

definition has_key :: "pydict \<Rightarrow> pystr \<Rightarrow> bool" where
  "has_key d k = (map_of d k \<noteq> None)"

definition dict_set :: "pydict \<Rightarrow> pystr \<Rightarrow> json \<Rightarrow> pydict" where
  "dict_set d k v = AList.update k v d"

definition dict_get :: "pydict \<Rightarrow> pystr \<Rightarrow> json \<Rightarrow> json" where
  "dict_get d k dflt = (case map_of d k of None \<Rightarrow> dflt | Some v \<Rightarrow> v)"

section \<open>Workspace store: back-filling defaults (\<open>load_app_data\<close>)\<close>

text \<open>
  Lines 26-38 of \<open>load_app_data\<close>: the table of defaults and the loop
  \<open>for k, v in defaults.items(): if k not in data: data[k] = v\<close>.  A key that is absent
  is added at the end, as a Python dict does.
\<close>

definition defaults :: pydict where
  "defaults =
    [(ustr ''veteran_profile'', JObj []),
     (ustr ''issues'', JArr []),
     (ustr ''symptom_mappings'', JArr []),
     (ustr ''symptom_note'', JStr []),
     (ustr ''claims'', JArr []),
     (ustr ''notes'', JStr []),
     (ustr ''documents'', JArr []),
     (ustr ''evidence_summary'', JStr [])]"

fun fill_defaults :: "pydict \<Rightarrow> pydict \<Rightarrow> pydict" where
  "fill_defaults [] data = data"
| "fill_defaults ((k, v) # rest) data =
     fill_defaults rest (if \<not> has_key data k then dict_set data k v else data)"

definition merge_defaults :: "pydict \<Rightarrow> pydict" where
  "merge_defaults data = fill_defaults defaults data"

section \<open>Python string operations\<close>

text \<open>
  \<open>str.isspace\<close> for one code point: the characters CPython lists as whitespace.
  \<open>s.strip()\<close> removes them from both ends.
\<close>

definition isspace :: "nat \<Rightarrow> bool" where
  "isspace c =
     ((9 \<le> c \<and> c \<le> 13) \<or> (28 \<le> c \<and> c \<le> 32) \<or> c = 133 \<or> c = 160 \<or> c = 5760
      \<or> (8192 \<le> c \<and> c \<le> 8202) \<or> c = 8232 \<or> c = 8233 \<or> c = 8239 \<or> c = 8287
      \<or> c = 12288)"

definition strip :: "pystr \<Rightarrow> pystr" where
  "strip s = rev (dropWhile isspace (rev (dropWhile isspace s)))"

text \<open>\<open>s.split(sep)\<close> for a one-character separator: always at least one piece.\<close>

fun split_from :: "nat \<Rightarrow> pystr \<Rightarrow> pystr \<Rightarrow> pystr list" where
  "split_from sep cur [] = [cur]"
| "split_from sep cur (c # cs) =
     (if c = sep then cur # split_from sep [] cs else split_from sep (cur @ [c]) cs)"

definition py_split :: "nat \<Rightarrow> pystr \<Rightarrow> pystr list" where
  "py_split sep s = split_from sep [] s"

text \<open>\<open>sub in s\<close> for strings: \<open>sub\<close> occurs as a contiguous run.\<close>

fun contains :: "pystr \<Rightarrow> pystr \<Rightarrow> bool" where
  "contains sub [] = (sub = [])"
| "contains sub (c # cs) = (prefix sub (c # cs) \<or> contains sub cs)"

text \<open>
  \<open>s.splitlines()\<close>: the line boundaries of Python, with a carriage return followed
  by a line feed counted once and no empty last line after a final boundary.
\<close>

definition is_linebreak :: "nat \<Rightarrow> bool" where
  "is_linebreak c =
     (c = 10 \<or> c = 11 \<or> c = 12 \<or> c = 13 \<or> c = 28 \<or> c = 29 \<or> c = 30 \<or> c = 133
      \<or> c = 8232 \<or> c = 8233)"

fun splitlines_from :: "pystr \<Rightarrow> pystr \<Rightarrow> pystr list" where
  "splitlines_from cur [] = (if cur = [] then [] else [cur])"
| "splitlines_from cur [c] = (if is_linebreak c then [cur] else [cur @ [c]])"
| "splitlines_from cur (c # d # cs) =
     (if c = 13 \<and> d = 10 then cur # splitlines_from [] cs
      else if is_linebreak c then cur # splitlines_from [] (d # cs)
      else splitlines_from (cur @ [c]) (d # cs))"

definition splitlines :: "pystr \<Rightarrow> pystr list" where
  "splitlines s = splitlines_from [] s"

section \<open>Legacy symptom mapper: the table-style parser\<close>

text \<open>
  The parsing loop shared by \<open>map_symptoms_to_conditions\<close> and the older
  \<open>map_symptoms\<close> (lines 217-230 and 502-516 of the older application files):
  \<open>content.strip()\<close> split at line feeds, then per line the three skips and the two-cell
  test.  The code points 124, 45, 32 and 10 are \<open>|\<close>, \<open>-\<close>, space and line feed.
\<close>

fun table_rows_loop :: "pystr list \<Rightarrow> pystr list list" where
  "table_rows_loop [] = []"
| "table_rows_loop (line # rest) =
     (if strip line = [] then table_rows_loop rest
      else if contains (ustr ''Condition'') line \<and> contains (ustr ''ICD'') line
        then table_rows_loop rest
      else if set (strip line) \<subseteq> {124, 45, 32} then table_rows_loop rest
      else (let parts = map strip (filter (\<lambda>p. strip p \<noteq> []) (py_split 124 line))
            in if length parts = 2 then parts # table_rows_loop rest
               else table_rows_loop rest))"

definition table_rows :: "pystr \<Rightarrow> pystr list list" where
  "table_rows content = table_rows_loop (py_split 10 (strip content))"

section \<open>Profile tab: regenerating the issues list\<close>

text \<open>
  Lines 381-386 of \<open>main\<close>: every line of the text area is stripped and, when
  something is left, appended as \<open>{"label": line, "details": ""}\<close>.
\<close>

definition issue_entry :: "pystr \<Rightarrow> json" where
  "issue_entry line = JObj [(ustr ''label'', JStr line), (ustr ''details'', JStr [])]"

fun issues_loop :: "pystr list \<Rightarrow> json list \<Rightarrow> json list" where
  "issues_loop [] new_issues = new_issues"
| "issues_loop (line # rest) new_issues =
     (let line' = strip line
      in if line' \<noteq> [] then issues_loop rest (new_issues @ [issue_entry line'])
         else issues_loop rest new_issues)"

definition regenerate_issues :: "pystr \<Rightarrow> json list" where
  "regenerate_issues issues_text = issues_loop (splitlines issues_text) []"

section \<open>Python's dynamic operations on JSON values\<close>

text \<open>
  The exceptions the modelled code can meet.  \<open>ServiceError\<close> stands for whatever the
  generation service or an imported library raises.
\<close>

datatype exn =
  AttributeError | TypeError | KeyError | JSONDecodeError | UnicodeDecodeError | ServiceError

text \<open>Sequencing of fallible steps: the first exception ends the computation.\<close>

definition andthen :: "exn + 'a \<Rightarrow> ('a \<Rightarrow> exn + 'b) \<Rightarrow> exn + 'b" where
  "andthen r f = (case r of Inl e \<Rightarrow> Inl e | Inr x \<Rightarrow> f x)"

text \<open>Truth value of a value in \<open>if v:\<close> and \<open>v or w\<close>.\<close>

fun truthy :: "json \<Rightarrow> bool" where
  "truthy JNull = False"
| "truthy (JBool b) = b"
| "truthy (JInt i) = (i \<noteq> 0)"
| "truthy (JFloat r) = (r \<noteq> ustr ''0.0'' \<and> r \<noteq> ustr ''-0.0'')"
| "truthy (JStr s) = (s \<noteq> [])"
| "truthy (JArr xs) = (xs \<noteq> [])"
| "truthy (JObj kvs) = (kvs \<noteq> [])"

definition py_or :: "json \<Rightarrow> json \<Rightarrow> json" where
  "py_or v w = (if truthy v then v else w)"

text \<open>
  \<open>v.get(k, default)\<close>: only a dict has the method.  \<open>d[k]\<close> on a dict raises on a missing
  key.  \<open>for x in v\<close> walks a list, the characters of a string or the keys of a dict, and
  raises on anything else.
\<close>

definition py_get :: "json \<Rightarrow> pystr \<Rightarrow> json \<Rightarrow> exn + json" where
  "py_get v k dflt = (case v of JObj d \<Rightarrow> Inr (dict_get d k dflt) | _ \<Rightarrow> Inl AttributeError)"

definition dict_index :: "pydict \<Rightarrow> pystr \<Rightarrow> exn + json" where
  "dict_index d k = (case map_of d k of None \<Rightarrow> Inl KeyError | Some v \<Rightarrow> Inr v)"

definition py_iter :: "json \<Rightarrow> exn + json list" where
  "py_iter v =
     (case v of
        JArr xs \<Rightarrow> Inr xs
      | JStr s \<Rightarrow> Inr (map (\<lambda>c. JStr [c]) s)
      | JObj d \<Rightarrow> Inr (map (\<lambda>kv. JStr (fst kv)) d)
      | _ \<Rightarrow> Inl TypeError)"

text \<open>Decimal text of an integer, as \<open>str\<close> gives it.\<close>

fun str_nat :: "nat \<Rightarrow> pystr" where
  "str_nat n = (if n < 10 then [48 + n] else str_nat (n div 10) @ [48 + n mod 10])"

declare str_nat.simps [simp del]

definition str_int :: "int \<Rightarrow> pystr" where
  "str_int i = (if i < 0 then 45 # str_nat (nat (- i)) else str_nat (nat i))"

text \<open>
  What an f-string puts for \<open>{v}\<close>.  For a list or a dict Python prints the \<open>repr\<close> of
  the elements, which depends on the Unicode tables of the interpreter; that part is the
  parameter \<open>rp\<close>.
\<close>

fun py_str :: "(json \<Rightarrow> pystr) \<Rightarrow> json \<Rightarrow> pystr" where
  "py_str rp JNull = ustr ''None''"
| "py_str rp (JBool b) = (if b then ustr ''True'' else ustr ''False'')"
| "py_str rp (JInt i) = str_int i"
| "py_str rp (JFloat r) = r"
| "py_str rp (JStr s) = s"
| "py_str rp (JArr xs) = rp (JArr xs)"
| "py_str rp (JObj kvs) = rp (JObj kvs)"

text \<open>\<open>sep.join(parts)\<close> on strings.\<close>

fun join :: "pystr \<Rightarrow> pystr list \<Rightarrow> pystr" where
  "join sep [] = []"
| "join sep [p] = p"
| "join sep (p # q # ps) = p @ sep @ join sep (q # ps)"

section \<open>Generation gateway\<close>

text \<open>
  The chat-completion service is an external collaborator: a request goes in, and either
  the text of the first choice comes back or something is raised.  What the user sees is
  collected as a list of notices.  \<open>call_gpt\<close> (lines 61-74) strips the text, and on any
  exception shows the error and returns the empty string.  The temperature is carried as
  the text of the literal.
\<close>

record request =
  model :: pystr
  temperature :: pystr
  system_content :: pystr
  user_content :: pystr

type_synonym gateway = "request \<Rightarrow> exn + pystr"

datatype notice =
    ModelError exn
  | PdfReadFailed pystr exn
  | DocxReadFailed pystr exn
  | NoJsonParsed pystr

definition call_gpt :: "gateway \<Rightarrow> pystr \<Rightarrow> pystr \<Rightarrow> pystr \<Rightarrow> pystr \<times> notice list" where
  "call_gpt complete system_prompt user_prompt temp =
     (case complete \<lparr>model = ustr ''gpt-4o-mini'', temperature = temp,
                      system_content = system_prompt, user_content = user_prompt\<rparr> of
        Inr content \<Rightarrow> (strip content, [])
      | Inl e \<Rightarrow> ([], [ModelError e]))"

section \<open>Symptom mapping\<close>

definition mapper_system_prompt :: pystr where
  \<open>mapper_system_prompt =
     ustr ''You support veterans building VA disability claims. ''
     @ ustr ''Return JSON only. Format: ''
     @ ustr ''[{"condition":"","icd10":"","body_system":"","va_rating_hint":"","rationale":""}] ''
     @ ustr ''Do not add commentary outside JSON.''\<close>

definition mapper_user_prompt :: "pystr \<Rightarrow> pystr" where
  "mapper_user_prompt symptom_text =
     ustr ''Symptoms and history from the veteran:'' @ [10]
     @ symptom_text @ [10, 10]
     @ ustr ''Suggest likely diagnostic labels with ICD-10 codes and VA rating hints. ''
     @ ustr ''Include Gulf War environmental exposure links when that fits.''"

text \<open>
  \<open>map_symptoms\<close> (lines 117-141): \<open>json.loads\<close> is the parameter \<open>json_loads\<close>;
  whatever it raises is caught, and only a top-level list is kept.
\<close>

definition map_symptoms ::
  "gateway \<Rightarrow> (pystr \<Rightarrow> exn + json) \<Rightarrow> pystr \<Rightarrow> (json list \<times> pystr) \<times> notice list" where
  "map_symptoms complete json_loads symptom_text =
     (let (raw, shown) =
            call_gpt complete mapper_system_prompt (mapper_user_prompt symptom_text)
              (ustr ''0.2'');
          parsed = (case json_loads raw of
                      Inr (JArr data) \<Rightarrow> data
                    | Inr _ \<Rightarrow> []
                    | Inl _ \<Rightarrow> [])
      in ((parsed, raw), shown))"

text \<open>
  The button of the mapper tab (lines 501-508 of \<open>main\<close>), once clicked: the stored
  mappings are assigned only under \<open>if mappings:\<close>; otherwise a warning and the raw text
  are shown.
\<close>

definition analyze_symptoms ::
  "gateway \<Rightarrow> (pystr \<Rightarrow> exn + json) \<Rightarrow> pydict \<Rightarrow> pystr \<Rightarrow> pydict \<times> notice list" where
  "analyze_symptoms complete json_loads app_data symptom_note =
     (if strip symptom_note \<noteq> [] then
        (let ((mappings, raw), shown) = map_symptoms complete json_loads symptom_note
         in if mappings \<noteq> []
            then (dict_set app_data (ustr ''symptom_mappings'') (JArr mappings), shown)
            else (app_data, shown @ [NoJsonParsed raw]))
      else (app_data, []))"

section \<open>Evidence summary\<close>

text \<open>
  Lines 455-461 of \<open>main\<close>.  One document contributes \<open>name:\<close>, a line feed and its
  text when \<open>d.get("text") or ""\<close> is true, and nothing otherwise.
\<close>

definition doc_contribution :: "(json \<Rightarrow> pystr) \<Rightarrow> json \<Rightarrow> exn + pystr option" where
  "doc_contribution rp d =
     andthen (py_get d (ustr ''text'') JNull) (\<lambda>t.
       let text = py_or t (JStr [])
       in if truthy text
          then andthen (py_get d (ustr ''name'') JNull) (\<lambda>n.
                 Inr (Some (py_str rp n @ ustr '':'' @ [10] @ py_str rp text)))
          else Inr None)"

fun joined_texts_loop ::
  "(json \<Rightarrow> pystr) \<Rightarrow> json list \<Rightarrow> pystr list \<Rightarrow> exn + pystr list" where
  "joined_texts_loop rp [] joined_texts = Inr joined_texts"
| "joined_texts_loop rp (d # rest) joined_texts =
     andthen (doc_contribution rp d) (\<lambda>c.
       case c of
         Some piece \<Rightarrow> joined_texts_loop rp rest (joined_texts @ [piece])
       | None \<Rightarrow> joined_texts_loop rp rest joined_texts)"

definition evidence_blob :: "(json \<Rightarrow> pystr) \<Rightarrow> pydict \<Rightarrow> exn + pystr" where
  "evidence_blob rp app_data =
     andthen (dict_index app_data (ustr ''documents'')) (\<lambda>docs.
     andthen (py_iter docs) (\<lambda>ds.
     andthen (joined_texts_loop rp ds []) (\<lambda>joined_texts.
       Inr (take 12000 (join [10, 10] joined_texts)))))"

definition summary_system_prompt :: pystr where
  "summary_system_prompt =
     ustr ''You summarize medical records for VA disability claims. ''
     @ ustr ''Write a structured summary covering diagnoses, key findings, ''
     @ ustr ''functional limitations, and any references to service or exposures.''"

definition summary_user_prompt :: "pystr \<Rightarrow> pystr" where
  "summary_user_prompt big_blob =
     ustr ''Summarize the following records for use in a VA claim. ''
     @ ustr ''Do not give legal advice.'' @ [10, 10]
     @ big_blob"

text \<open>
  The button "Build or refresh evidence summary" (lines 454-476), once clicked.  The
  result is the aggregate, the value of \<open>current_summary\<close> and the notices shown.
\<close>

definition refresh_evidence_summary ::
  "(json \<Rightarrow> pystr) \<Rightarrow> gateway \<Rightarrow> pydict \<Rightarrow> exn + (pydict \<times> json \<times> notice list)" where
  "refresh_evidence_summary rp complete app_data =
     (let current_summary = dict_get app_data (ustr ''evidence_summary'') (JStr [])
      in andthen (evidence_blob rp app_data) (\<lambda>big_blob.
           if big_blob \<noteq> [] then
             (let (summary, shown) =
                    call_gpt complete summary_system_prompt (summary_user_prompt big_blob)
                      (ustr ''0.25'')
              in Inr (dict_set app_data (ustr ''evidence_summary'') (JStr summary),
                      JStr summary, shown))
           else Inr (app_data, current_summary, [])))"

section \<open>Document extractor\<close>

text \<open>
  \<open>bytes.decode("utf-8", errors=...)\<close>.  One step of CPython's decoder looks at the
  bytes in front of it and either yields a code point and the number of bytes it took, or
  reports a malformed run with the number of bytes the error covers: one for a byte that
  cannot start a sequence, the bytes read so far when a continuation byte is wrong, and
  everything left when the input ends inside a sequence.  Overlong forms, surrogates and
  code points beyond 10FFFF are rejected at the second byte.
\<close>

type_synonym byte = "8 word"

datatype errors = Strict | Ignore | Replace

datatype decoded = Scalar nat nat | Malformed nat

definition is_cont :: "nat \<Rightarrow> bool" where
  "is_cont b = (128 \<le> b \<and> b < 192)"

fun decode_one :: "nat list \<Rightarrow> decoded" where
  "decode_one [] = Malformed 1"
| "decode_one (b0 # rest) =
     (if b0 < 128 then Scalar b0 1
      else if b0 < 194 then Malformed 1
      else if b0 < 224 then
        (case rest of
           [] \<Rightarrow> Malformed 1
         | b1 # _ \<Rightarrow>
             if is_cont b1 then Scalar ((b0 - 192) * 64 + (b1 - 128)) 2 else Malformed 1)
      else if b0 < 240 then
        (case rest of
           [] \<Rightarrow> Malformed 1
         | b1 # r1 \<Rightarrow>
             if \<not> is_cont b1 \<or> (b0 = 224 \<and> b1 < 160) \<or> (b0 = 237 \<and> 160 \<le> b1)
             then Malformed 1
             else (case r1 of
                     [] \<Rightarrow> Malformed 2
                   | b2 # _ \<Rightarrow>
                       if is_cont b2
                       then Scalar (((b0 - 224) * 64 + (b1 - 128)) * 64 + (b2 - 128)) 3
                       else Malformed 2))
      else if b0 < 245 then
        (case rest of
           [] \<Rightarrow> Malformed 1
         | b1 # r1 \<Rightarrow>
             if \<not> is_cont b1 \<or> (b0 = 240 \<and> b1 < 144) \<or> (b0 = 244 \<and> 144 \<le> b1)
             then Malformed 1
             else (case r1 of
                     [] \<Rightarrow> Malformed 2
                   | b2 # r2 \<Rightarrow>
                       if \<not> is_cont b2 then Malformed 2
                       else (case r2 of
                               [] \<Rightarrow> Malformed 3
                             | b3 # _ \<Rightarrow>
                                 if is_cont b3
                                 then Scalar ((((b0 - 240) * 64 + (b1 - 128)) * 64
                                                 + (b2 - 128)) * 64 + (b3 - 128)) 4
                                 else Malformed 3)))
      else Malformed 1)"

text \<open>
  The loop of the decoder.  A step always takes at least the byte \<open>b\<close>, so the rest is
  \<open>bs\<close> without the further \<open>n - 1\<close> bytes.  On a malformed run \<open>strict\<close> raises,
  \<open>ignore\<close> moves on and \<open>replace\<close> puts U+FFFD (65533).
\<close>

fun utf8_decode :: "errors \<Rightarrow> nat list \<Rightarrow> exn + pystr" where
  "utf8_decode mode [] = Inr []"
| "utf8_decode mode (b # bs) =
     (case decode_one (b # bs) of
        Scalar cp n \<Rightarrow>
          andthen (utf8_decode mode (drop (n - 1) bs)) (\<lambda>s. Inr (cp # s))
      | Malformed n \<Rightarrow>
          (case mode of
             Strict \<Rightarrow> Inl UnicodeDecodeError
           | Ignore \<Rightarrow> utf8_decode mode (drop (n - 1) bs)
           | Replace \<Rightarrow>
               andthen (utf8_decode mode (drop (n - 1) bs)) (\<lambda>s. Inr (65533 # s))))"

definition bytes_decode :: "errors \<Rightarrow> byte list \<Rightarrow> exn + pystr" where
  "bytes_decode mode content = utf8_decode mode (map unat content)"

text \<open>
  \<open>extract_text_from_bytes\<close> (lines 77-114).  The PDF and DOCX readers are imported
  libraries: \<open>pdf_pages\<close> gives what \<open>extract_text()\<close> returns for each page (\<open>None\<close>
  when it returns nothing), \<open>docx_paragraphs\<close> the text of each paragraph; either may
  raise.
\<close>

record libraries =
  pdf_pages :: "byte list \<Rightarrow> exn + pystr option list"
  docx_paragraphs :: "byte list \<Rightarrow> exn + pystr list"

definition docx_mime :: pystr where
  "docx_mime = ustr ''application/vnd.openxmlformats-officedocument.wordprocessingml.document''"

definition extract_text_from_bytes ::
  "libraries \<Rightarrow> byte list \<Rightarrow> pystr option \<Rightarrow> pystr \<Rightarrow> pystr \<times> notice list" where
  "extract_text_from_bytes libs content mime_arg name =
     (let mime = (case mime_arg of None \<Rightarrow> [] | Some m \<Rightarrow> m)
      in if prefix (ustr ''text/'') mime then
           (case bytes_decode Ignore content of
              Inr text \<Rightarrow> (text, [])
            | Inl e \<Rightarrow> ([], []))
         else if mime = ustr ''application/pdf'' then
           (case pdf_pages libs content of
              Inr pages \<Rightarrow>
                (join [10] (map (\<lambda>p. case p of None \<Rightarrow> [] | Some t \<Rightarrow> t) pages), [])
            | Inl e \<Rightarrow> ([], [PdfReadFailed name e]))
         else if mime = docx_mime then
           (case docx_paragraphs libs content of
              Inr paras \<Rightarrow> (join [10] paras, [])
            | Inl e \<Rightarrow> ([], [DocxReadFailed name e]))
         else
           (case bytes_decode Ignore content of
              Inr text \<Rightarrow> (text, [])
            | Inl e \<Rightarrow> ([], [])))"

section \<open>Upload tab: storing documents\<close>

text \<open>
  Lines 401-423 of \<open>main\<close>.  An upload is the triple the uploader hands over; each comes
  with the reading of the clock taken when its entry is built.
\<close>

record upload =
  up_name :: pystr
  up_type :: "pystr option"
  up_value :: "byte list"

fun ids_of :: "json list \<Rightarrow> exn + json list" where
  "ids_of [] = Inr []"
| "ids_of (d # ds) =
     andthen (py_get d (ustr ''id'') JNull) (\<lambda>i.
     andthen (ids_of ds) (\<lambda>is. Inr (i # is)))"

definition doc_id_of :: "upload \<Rightarrow> pystr" where
  "doc_id_of up = up_name up @ ustr '':'' @ str_nat (length (up_value up))"

definition doc_entry :: "upload \<Rightarrow> pystr \<Rightarrow> pystr \<Rightarrow> json" where
  "doc_entry up now text =
     JObj [(ustr ''id'', JStr (doc_id_of up)),
           (ustr ''name'', JStr (up_name up)),
           (ustr ''mime'', (case up_type up of None \<Rightarrow> JNull | Some m \<Rightarrow> JStr m)),
           (ustr ''size'', JInt (int (length (up_value up)))),
           (ustr ''uploaded_at'', JStr (now @ ustr ''Z'')),
           (ustr ''text'', JStr text),
           (ustr ''notes'', JStr [])]"

definition process_upload ::
  "libraries \<Rightarrow> pydict \<Rightarrow> upload \<Rightarrow> pystr \<Rightarrow> exn + (pydict \<times> notice list)" where
  "process_upload libs app_data up now =
     andthen (dict_index app_data (ustr ''documents'')) (\<lambda>docs.
     andthen (py_iter docs) (\<lambda>ds.
     andthen (ids_of ds) (\<lambda>existing_ids.
       if JStr (doc_id_of up) \<in> set existing_ids then Inr (app_data, [])
       else
         (let (text, shown) =
                extract_text_from_bytes libs (up_value up) (up_type up) (up_name up)
          in case docs of
               JArr stored \<Rightarrow>
                 Inr (dict_set app_data (ustr ''documents'')
                        (JArr (stored @ [doc_entry up now text])), shown)
             | _ \<Rightarrow> Inl AttributeError))))"

fun upload_loop ::
  "libraries \<Rightarrow> (upload \<times> pystr) list \<Rightarrow> pydict \<Rightarrow> notice list
     \<Rightarrow> exn + (pydict \<times> notice list)" where
  "upload_loop libs [] app_data shown = Inr (app_data, shown)"
| "upload_loop libs ((up, now) # rest) app_data shown =
     andthen (process_upload libs app_data up now) (\<lambda>(app_data', more).
       upload_loop libs rest app_data' (shown @ more))"

section \<open>Stand-ins for the external collaborators\<close>

text \<open>
  Concrete runs need concrete collaborators.  A gateway that answers every request with
  one text, a gateway that always fails, a decoder that knows the listed texts (and raises
  on every other, as \<open>json.loads\<close> does on the empty string), a container formatter
  for runs that format no list or dict, and libraries for runs that read no PDF or DOCX.
\<close>

definition gateway_returning :: "pystr \<Rightarrow> gateway" where
  "gateway_returning content req = Inr content"

definition gateway_failing :: gateway where
  "gateway_failing req = Inl ServiceError"

definition loads_table :: "(pystr \<times> json) list \<Rightarrow> pystr \<Rightarrow> exn + json" where
  "loads_table known raw =
     (case map_of known raw of Some v \<Rightarrow> Inr v | None \<Rightarrow> Inl JSONDecodeError)"

definition repr_unused :: "json \<Rightarrow> pystr" where
  "repr_unused v = []"

definition no_libraries :: libraries where
  "no_libraries =
     \<lparr>pdf_pages = (\<lambda>content. Inl ServiceError),
      docx_paragraphs = (\<lambda>content. Inl ServiceError)\<rparr>"

section \<open>Packet exporter\<close>

text \<open>
  \<open>build_full_claim_packet\<close> (lines 203-265) collects lines and joins them with line feeds.  A line is
  kept as a JSON value until the join, because two of them (\<open>evidence_summary or ...\<close> and
  \<open>c.get("body") or ""\<close>) are appended as they are, and \<open>join\<close> raises on anything that
  is not a string.
\<close>

fun strs_of :: "json list \<Rightarrow> exn + pystr list" where
  "strs_of [] = Inr []"
| "strs_of (JStr s # rest) = andthen (strs_of rest) (\<lambda>ss. Inr (s # ss))"
| "strs_of (_ # rest) = Inl TypeError"

definition py_join :: "pystr \<Rightarrow> json list \<Rightarrow> exn + pystr" where
  "py_join sep items = andthen (strs_of items) (\<lambda>ss. Inr (join sep ss))"

text \<open>
  The six tests \<open>if prof.get(key): lines.append(f"label{prof.get(key)}")\<close>, in the order
  of the source, as a walk over the keys and their labels.
\<close>

definition packet_profile_fields :: "(pystr \<times> pystr) list" where
  "packet_profile_fields =
     [(ustr ''full_name'', ustr ''Name: ''),
      (ustr ''branch'', ustr ''Branch: ''),
      (ustr ''service_dates'', ustr ''Service dates: ''),
      (ustr ''deployment_locations'', ustr ''Deployments: ''),
      (ustr ''mos_duties'', ustr ''Duties / MOS: ''),
      (ustr ''other_notes'', ustr ''Additional notes: '')]"

fun profile_lines :: "(json \<Rightarrow> pystr) \<Rightarrow> json \<Rightarrow> (pystr \<times> pystr) list \<Rightarrow> exn + json list" where
  "profile_lines rp prof [] = Inr []"
| "profile_lines rp prof ((key, label) # rest) =
     andthen (py_get prof key JNull) (\<lambda>v.
     andthen (profile_lines rp prof rest) (\<lambda>ls.
       Inr ((if truthy v then [JStr (label @ py_str rp v)] else []) @ ls)))"

fun issue_lines :: "(json \<Rightarrow> pystr) \<Rightarrow> json list \<Rightarrow> exn + json list" where
  "issue_lines rp [] = Inr []"
| "issue_lines rp (i # rest) =
     andthen (py_get i (ustr ''label'') JNull) (\<lambda>label.
       if truthy label then
         andthen (py_get i (ustr ''details'') JNull) (\<lambda>d.
           let detail = py_or d (JStr [])
           in andthen (if truthy detail
                       then (case detail of
                               JStr t \<Rightarrow> Inr (ustr '' - '' @ t)
                             | _ \<Rightarrow> Inl TypeError)
                       else Inr []) (\<lambda>suffix.
              andthen (issue_lines rp rest) (\<lambda>ls.
                Inr (JStr (ustr ''- '' @ py_str rp label @ ustr '' '' @ suffix) # ls))))
       else issue_lines rp rest)"

fun mapping_lines :: "(json \<Rightarrow> pystr) \<Rightarrow> json list \<Rightarrow> exn + json list" where
  "mapping_lines rp [] = Inr []"
| "mapping_lines rp (m # rest) =
     andthen (py_get m (ustr ''condition'') JNull) (\<lambda>condition.
     andthen (py_get m (ustr ''icd10'') JNull) (\<lambda>icd10.
     andthen (py_get m (ustr ''body_system'') JNull) (\<lambda>body_system.
     andthen (py_get m (ustr ''va_rating_hint'') JNull) (\<lambda>hint.
     andthen (py_get m (ustr ''selected_for_claim'') (JBool False)) (\<lambda>selected.
     andthen (mapping_lines rp rest) (\<lambda>ls.
       Inr (JStr (ustr ''- '' @ py_str rp condition
                  @ ustr '' | ICD-10 '' @ py_str rp icd10
                  @ ustr '' | system: '' @ py_str rp body_system
                  @ ustr '' | rating hint: '' @ py_str rp hint
                  @ ustr '' | selected: '' @ py_str rp selected) # ls)))))))"

fun claim_lines :: "(json \<Rightarrow> pystr) \<Rightarrow> json list \<Rightarrow> exn + json list" where
  "claim_lines rp [] = Inr []"
| "claim_lines rp (c # rest) =
     andthen (py_get c (ustr ''title'') JNull) (\<lambda>title.
     andthen (py_get c (ustr ''created_at'') JNull) (\<lambda>created.
     andthen (py_get c (ustr ''body'') JNull) (\<lambda>body.
     andthen (claim_lines rp rest) (\<lambda>ls.
       Inr ([JStr [],
             JStr (ustr ''Title: '' @ py_str rp title),
             JStr (ustr ''Created: '' @ py_str rp created),
             JStr [],
             py_or body (JStr []),
             JStr []] @ ls)))))"

definition no_summary :: pystr where
  "no_summary = ustr ''[No summary prepared yet]''"

text \<open>Everything below the timestamp line: the five sections, in the order of the source.\<close>

definition packet_sections :: "(json \<Rightarrow> pystr) \<Rightarrow> pydict \<Rightarrow> exn + json list" where
  "packet_sections rp app_data =
     (let prof = dict_get app_data (ustr ''veteran_profile'') (JObj []);
          issues = dict_get app_data (ustr ''issues'') (JArr []);
          symptom_mappings = dict_get app_data (ustr ''symptom_mappings'') (JArr []);
          claims = dict_get app_data (ustr ''claims'') (JArr []);
          evidence_summary = dict_get app_data (ustr ''evidence_summary'') (JStr [])
      in andthen (profile_lines rp prof packet_profile_fields) (\<lambda>pl.
         andthen (py_iter issues) (\<lambda>is.
         andthen (issue_lines rp is) (\<lambda>il.
         andthen (py_iter symptom_mappings) (\<lambda>ms.
         andthen (mapping_lines rp ms) (\<lambda>ml.
         andthen (py_iter claims) (\<lambda>cs.
         andthen (claim_lines rp cs) (\<lambda>cl.
           Inr ([JStr (ustr ''Veteran profile''), JStr (ustr ''----------------'')]
                @ pl
                @ [JStr [], JStr (ustr ''Claimed issues''), JStr (ustr ''-------------'')]
                @ il
                @ [JStr [], JStr (ustr ''Symptom to condition mappings''),
                   JStr (ustr ''-----------------------------'')]
                @ ml
                @ [JStr [], JStr (ustr ''Evidence summary''), JStr (ustr ''----------------''),
                   py_or evidence_summary (JStr no_summary),
                   JStr [], JStr (ustr ''Saved personal statements''),
                   JStr (ustr ''-------------------------'')]
                @ cl)))))))))"

text \<open>\<open>now\<close> is the text of \<open>datetime.utcnow().isoformat()\<close> at the time of the call.\<close>

definition build_full_claim_packet :: "(json \<Rightarrow> pystr) \<Rightarrow> pystr \<Rightarrow> pydict \<Rightarrow> exn + pystr" where
  "build_full_claim_packet rp now app_data =
     andthen (packet_sections rp app_data) (\<lambda>sections.
       py_join [10]
         ([JStr (ustr ''VA ClaimMate Claim Packet''),
           JStr (ustr ''Generated: '' @ now @ ustr ''Z''),
           JStr []] @ sections))"

text \<open>
  An aggregate whose stored values have the types of the data model, as far as the
  exporter looks at them: the profile is an object; issues, mappings and claims are lists
  of objects; an issue's details, a claim's body and the evidence summary are strings or
  absent (or otherwise false).
\<close>

definition text_or_nothing :: "json \<Rightarrow> bool" where
  "text_or_nothing v = (case v of JStr s \<Rightarrow> True | _ \<Rightarrow> \<not> truthy v)"

fun is_obj :: "json \<Rightarrow> bool" where
  "is_obj (JObj d) = True"
| "is_obj _ = False"

definition obj_with_text :: "pystr \<Rightarrow> json \<Rightarrow> bool" where
  "obj_with_text key v =
     (case v of JObj d \<Rightarrow> text_or_nothing (dict_get d key JNull) | _ \<Rightarrow> False)"

definition list_of :: "(json \<Rightarrow> bool) \<Rightarrow> json \<Rightarrow> bool" where
  "list_of ok v = (case v of JArr xs \<Rightarrow> list_all ok xs | _ \<Rightarrow> False)"

definition well_typed :: "pydict \<Rightarrow> bool" where
  "well_typed app_data =
     (is_obj (dict_get app_data (ustr ''veteran_profile'') (JObj []))
      \<and> list_of (obj_with_text (ustr ''details'')) (dict_get app_data (ustr ''issues'') (JArr []))
      \<and> list_of is_obj (dict_get app_data (ustr ''symptom_mappings'') (JArr []))
      \<and> list_of (obj_with_text (ustr ''body'')) (dict_get app_data (ustr ''claims'') (JArr []))
      \<and> text_or_nothing (dict_get app_data (ustr ''evidence_summary'') (JStr [])))"

text \<open>For reading a list of lines that are all strings.\<close>

fun is_str :: "json \<Rightarrow> bool" where
  "is_str (JStr s) = True"
| "is_str _ = False"

fun the_str :: "json \<Rightarrow> pystr" where
  "the_str (JStr s) = s"
| "the_str _ = []"

section \<open>Properties of the default back-fill\<close>

lemma dict_set_absent: "\<not> has_key d k \<Longrightarrow> dict_set d k v = d @ [(k, v)]"
  by (induction d) (auto simp: has_key_def dict_set_def)

lemma fill_defaults_extends: "\<exists>ys. fill_defaults ds data = data @ ys"
proof (induction ds arbitrary: data)
  case Nil
  show ?case by simp
next
  case (Cons p ds)
  obtain k v where p: "p = (k, v)" by (cases p)
  show ?case
  proof (cases "has_key data k")
    case True
    with Cons.IH [of data] p show ?thesis by simp
  next
    case False
    from Cons.IH [of "data @ [(k, v)]"] obtain ys
      where "fill_defaults ds (data @ [(k, v)]) = (data @ [(k, v)]) @ ys" by blast
    with False p show ?thesis by (simp add: dict_set_absent)
  qed
qed

lemma fill_defaults_present:
  "map_of data k = Some v \<Longrightarrow> map_of (fill_defaults ds data) k = Some v"
proof -
  assume a: "map_of data k = Some v"
  obtain ys where "fill_defaults ds data = data @ ys"
    using fill_defaults_extends by blast
  with a show ?thesis by (simp add: map_add_Some_iff)
qed

lemma fill_defaults_noop:
  "\<forall>k \<in> fst ` set ds. has_key data k \<Longrightarrow> fill_defaults ds data = data"
  by (induction ds arbitrary: data) auto

lemma fill_defaults_keys:
  "k \<in> fst ` set ds \<Longrightarrow> has_key (fill_defaults ds data) k"
proof (induction ds arbitrary: data)
  case Nil
  then show ?case by simp
next
  case (Cons p ds)
  obtain k' v' where p: "p = (k', v')" by (cases p)
  let ?d = "if \<not> has_key data k' then dict_set data k' v' else data"
  show ?case
  proof (cases "k \<in> fst ` set ds")
    case True
    with Cons.IH [of ?d] p show ?thesis by simp
  next
    case False
    with Cons.prems p have kk: "k = k'" by auto
    have "has_key ?d k'"
      by (auto simp: has_key_def dict_set_def update_conv')
    then obtain w where "map_of ?d k' = Some w"
      by (auto simp: has_key_def)
    then have "map_of (fill_defaults ds ?d) k' = Some w"
      by (rule fill_defaults_present)
    with p kk show ?thesis by (simp add: has_key_def)
  qed
qed

lemma fill_defaults_absent:
  "map_of data k = None \<Longrightarrow> distinct (map fst ds) \<Longrightarrow>
   map_of (fill_defaults ds data) k = map_of ds k"
proof (induction ds arbitrary: data)
  case Nil
  then show ?case by simp
next
  case (Cons p ds)
  obtain k' v' where p: "p = (k', v')" by (cases p)
  from Cons.prems p have d: "distinct (map fst ds)" and nk: "k' \<notin> fst ` set ds" by auto
  show ?case
  proof (cases "k = k'")
    case True
    with Cons.prems have "\<not> has_key data k'" by (simp add: has_key_def)
    moreover have "map_of (dict_set data k' v') k' = Some v'"
      by (simp add: dict_set_def update_conv')
    then have "map_of (fill_defaults ds (dict_set data k' v')) k' = Some v'"
      by (rule fill_defaults_present)
    ultimately show ?thesis using True p by simp
  next
    case False
    let ?d = "if \<not> has_key data k' then dict_set data k' v' else data"
    from False Cons.prems have "map_of ?d k = None"
      by (simp add: dict_set_def update_conv')
    from Cons.IH [OF this d] False p show ?thesis by simp
  qed
qed

lemma defaults_distinct: "distinct (map fst defaults)"
  by (simp add: defaults_def ustr_def)

text \<open>
  C1.  The default back-fill is idempotent; a key that is present keeps its value (the
  loaded aggregate is even kept as a prefix, in order, of the result), and a key that is
  absent receives exactly its default, or stays absent when it has none.
\<close>

theorem merge_defaults_idempotent:
  "merge_defaults (merge_defaults A) = merge_defaults A
   \<and> (\<exists>ys. merge_defaults A = A @ ys)
   \<and> (\<forall>k v. map_of A k = Some v \<longrightarrow> map_of (merge_defaults A) k = Some v)
   \<and> (\<forall>k. map_of A k = None \<longrightarrow> map_of (merge_defaults A) k = map_of defaults k)"
proof -
  have "\<forall>k \<in> fst ` set defaults. has_key (merge_defaults A) k"
    by (simp add: merge_defaults_def fill_defaults_keys)
  then have "fill_defaults defaults (merge_defaults A) = merge_defaults A"
    by (rule fill_defaults_noop)
  then have idem: "merge_defaults (merge_defaults A) = merge_defaults A"
    by (simp add: merge_defaults_def)
  have ext: "\<exists>ys. merge_defaults A = A @ ys"
    by (simp add: merge_defaults_def fill_defaults_extends)
  have keep: "\<forall>k v. map_of A k = Some v \<longrightarrow> map_of (merge_defaults A) k = Some v"
    by (simp add: merge_defaults_def fill_defaults_present)
  have fill: "\<forall>k. map_of A k = None \<longrightarrow> map_of (merge_defaults A) k = map_of defaults k"
    by (simp add: merge_defaults_def fill_defaults_absent defaults_distinct)
  from idem ext keep fill show ?thesis by blast
qed

theorem merge_defaults_idempotent_witness:
  "merge_defaults (merge_defaults [(ustr ''notes'', JStr (ustr ''hi'')), (ustr ''extra'', JInt 1)])
     = merge_defaults [(ustr ''notes'', JStr (ustr ''hi'')), (ustr ''extra'', JInt 1)]
   \<and> map_of (merge_defaults [(ustr ''notes'', JStr (ustr ''hi'')), (ustr ''extra'', JInt 1)])
        (ustr ''notes'') = Some (JStr (ustr ''hi''))
   \<and> map_of (merge_defaults [(ustr ''notes'', JStr (ustr ''hi'')), (ustr ''extra'', JInt 1)])
        (ustr ''issues'') = Some (JArr [])"
proof -
  let ?A = "[(ustr ''notes'', JStr (ustr ''hi'')), (ustr ''extra'', JInt 1)]"
  have p: "map_of ?A (ustr ''notes'') = Some (JStr (ustr ''hi''))"
    by (simp add: ustr_def)
  have a: "map_of ?A (ustr ''issues'') = None"
    by (simp add: ustr_def)
  have d: "map_of defaults (ustr ''issues'') = Some (JArr [])"
    by (simp add: defaults_def ustr_def)
  from merge_defaults_idempotent [of ?A] p a d show ?thesis by simp
qed

section \<open>Properties of the table-style parser\<close>

text \<open>
  C4.  On the text \<open>Condition | ICD-10 Code\<close>, \<open>--- | ---\<close>, \<open>Tinnitus | H93.1\<close>,
  \<open>badrow\<close> (each line ended by a line feed) the parser yields the single row
  \<open>["Tinnitus", "H93.1"]\<close>: the header, the separator and the one-cell line are dropped.
\<close>

theorem table_rows_vector:
  "table_rows
     (ustr ''Condition | ICD-10 Code'' @ [10] @ ustr ''--- | ---'' @ [10]
        @ ustr ''Tinnitus | H93.1'' @ [10] @ ustr ''badrow'' @ [10])
   = [[ustr ''Tinnitus'', ustr ''H93.1'']]"
  by (simp add: table_rows_def ustr_def strip_def isspace_def py_split_def)

section \<open>Properties of the issues list\<close>

lemma dropWhile_last: "dropWhile P xs \<noteq> [] \<Longrightarrow> last (dropWhile P xs) = last xs"
  by (induction xs) (auto split: if_splits)

lemma strip_ends:
  assumes "strip s \<noteq> []"
  shows "\<not> isspace (hd (strip s)) \<and> \<not> isspace (last (strip s))"
proof -
  let ?a = "dropWhile isspace s"
  let ?b = "dropWhile isspace (rev ?a)"
  from assms have b: "?b \<noteq> []" by (simp add: strip_def)
  then have hb: "\<not> isspace (hd ?b)" by (simp add: hd_dropWhile)
  have "xs \<noteq> []" if "dropWhile isspace (rev xs) \<noteq> []" for xs :: pystr
    using that by (cases xs) simp_all
  from this [OF b] have a: "?a \<noteq> []" .
  then have ha: "\<not> isspace (hd ?a)" by (simp add: hd_dropWhile)
  from b have "last ?b = last (rev ?a)" by (rule dropWhile_last)
  with a have lb: "last ?b = hd ?a" by (simp add: last_rev)
  from b have "hd (strip s) = last ?b" and "last (strip s) = hd ?b"
    by (simp_all add: strip_def hd_rev last_rev)
  with lb ha hb show ?thesis by simp
qed

lemma strip_fixed:
  assumes "s = [] \<or> (\<not> isspace (hd s) \<and> \<not> isspace (last s))"
  shows "strip s = s"
proof (cases "s = []")
  case True
  then show ?thesis by (simp add: strip_def)
next
  case False
  with assms have h: "\<not> isspace (hd s)" and l: "\<not> isspace (last s)" by auto
  from False h have 1: "dropWhile isspace s = s" by (cases s) auto
  from False l have "\<not> isspace (hd (rev s))" by (simp add: hd_rev)
  with False have 2: "dropWhile isspace (rev s) = rev s" by (cases "rev s") auto
  from 1 2 show ?thesis by (simp add: strip_def)
qed

lemma strip_idem: "strip (strip s) = strip s"
  using strip_ends [of s] strip_fixed [of "strip s"] by blast

lemma issues_loop_eq:
  "issues_loop ls acc = acc @ map issue_entry (filter (\<lambda>l. l \<noteq> []) (map strip ls))"
  by (induction ls arbitrary: acc) (auto simp: Let_def)

text \<open>
  C10.  Regenerating the issues from the text area keeps, in input order, exactly the
  stripped lines that are not empty; every stored issue has a label that is non-empty,
  carries no whitespace at either end, and has the empty string as its details.
\<close>

theorem regenerate_issues_labels:
  "regenerate_issues t
     = map issue_entry (filter (\<lambda>l. l \<noteq> []) (map strip (splitlines t)))
   \<and> (\<forall>i \<in> set (regenerate_issues t). \<exists>l.
          i = JObj [(ustr ''label'', JStr l), (ustr ''details'', JStr [])]
          \<and> l \<noteq> [] \<and> strip l = l
          \<and> \<not> isspace (hd l) \<and> \<not> isspace (last l))"
proof -
  have eq: "regenerate_issues t
     = map issue_entry (filter (\<lambda>l. l \<noteq> []) (map strip (splitlines t)))"
    by (simp add: regenerate_issues_def issues_loop_eq)
  have "\<exists>l. i = JObj [(ustr ''label'', JStr l), (ustr ''details'', JStr [])]
          \<and> l \<noteq> [] \<and> strip l = l
          \<and> \<not> isspace (hd l) \<and> \<not> isspace (last l)"
    if "i \<in> set (regenerate_issues t)" for i
  proof -
    from that eq obtain raw where i: "i = issue_entry (strip raw)" and ne: "strip raw \<noteq> []"
      by auto
    from ne have "\<not> isspace (hd (strip raw)) \<and> \<not> isspace (last (strip raw))"
      by (rule strip_ends)
    with i ne show ?thesis
      by (auto simp: issue_entry_def strip_idem)
  qed
  with eq show ?thesis by blast
qed

theorem regenerate_issues_labels_witness:
  "regenerate_issues (ustr ''  asthma '' @ [10, 9, 10] @ ustr ''PTSD  '')
     = [JObj [(ustr ''label'', JStr (ustr ''asthma'')), (ustr ''details'', JStr [])],
        JObj [(ustr ''label'', JStr (ustr ''PTSD'')), (ustr ''details'', JStr [])]]"
  using regenerate_issues_labels [of "ustr ''  asthma '' @ [10, 9, 10] @ ustr ''PTSD  ''"]
  by (simp add: splitlines_def is_linebreak_def ustr_def strip_def isspace_def issue_entry_def)

section \<open>Properties of the symptom mapper\<close>

lemma dict_get_set_same: "dict_get (dict_set d k v) k dflt = v"
  by (simp add: dict_get_def dict_set_def update_conv')

lemma dict_get_set_other:
  "k' \<noteq> k \<Longrightarrow> dict_get (dict_set d k v) k' dflt = dict_get d k' dflt"
  by (simp add: dict_get_def dict_set_def update_conv')

text \<open>
  C3.  With \<open>raw\<close> the text that \<open>call_gpt\<close> handed to \<open>map_symptoms\<close>: when
  \<open>json.loads\<close> gives a list, exactly that list is returned; in every other case
  (\<open>json.loads\<close> raises, or gives a value that is not a list) the structured result is
  empty.  Either way the raw text is returned beside it, and no exception leaves the
  function: it has a result in both cases, which together cover every outcome.
\<close>

theorem map_symptoms_parse:
  assumes "call_gpt complete mapper_system_prompt (mapper_user_prompt t) (ustr ''0.2'')
             = (raw, shown)"
  shows "(json_loads raw = Inr (JArr xs)
            \<longrightarrow> map_symptoms complete json_loads t = ((xs, raw), shown))
       \<and> ((\<forall>ys. json_loads raw \<noteq> Inr (JArr ys))
            \<longrightarrow> map_symptoms complete json_loads t = (([], raw), shown))"
  using assms
  by (auto simp: map_symptoms_def split: sum.splits json.splits)

theorem map_symptoms_parse_witness:
  "map_symptoms (gateway_returning (ustr '' [1] ''))
      (loads_table [(ustr ''[1]'', JArr [JInt 1])]) (ustr ''cough'')
     = (([JInt 1], ustr ''[1]''), [])
   \<and> map_symptoms (gateway_returning (ustr ''Sorry, no.''))
      (loads_table [(ustr ''[1]'', JArr [JInt 1])]) (ustr ''cough'')
     = (([], ustr ''Sorry, no.''), [])"
proof -
  let ?L = "loads_table [(ustr ''[1]'', JArr [JInt 1])]"
  have c1: "call_gpt (gateway_returning (ustr '' [1] '')) mapper_system_prompt
              (mapper_user_prompt (ustr ''cough'')) (ustr ''0.2'') = (ustr ''[1]'', [])"
    by (simp add: call_gpt_def gateway_returning_def strip_def isspace_def ustr_def)
  have c2: "call_gpt (gateway_returning (ustr ''Sorry, no.'')) mapper_system_prompt
              (mapper_user_prompt (ustr ''cough'')) (ustr ''0.2'') = (ustr ''Sorry, no.'', [])"
    by (simp add: call_gpt_def gateway_returning_def strip_def isspace_def ustr_def)
  have l1: "?L (ustr ''[1]'') = Inr (JArr [JInt 1])"
    by (simp add: loads_table_def ustr_def)
  have l2: "\<forall>ys. ?L (ustr ''Sorry, no.'') \<noteq> Inr (JArr ys)"
    by (simp add: loads_table_def ustr_def)
  from map_symptoms_parse [OF c1, of ?L "[JInt 1]"] l1
  have "map_symptoms (gateway_returning (ustr '' [1] '')) ?L (ustr ''cough'')
          = (([JInt 1], ustr ''[1]''), [])" by blast
  moreover from map_symptoms_parse [OF c2, of ?L] l2
  have "map_symptoms (gateway_returning (ustr ''Sorry, no.'')) ?L (ustr ''cough'')
          = (([], ustr ''Sorry, no.''), [])" by blast
  ultimately show ?thesis by blast
qed

text \<open>
  C8, the claim as stated fails: the completion \<open>[]\<close> parses as an (empty) JSON array,
  yet the stored mappings are not replaced by it; the earlier list stays and the
  "No JSON parsed" warning is shown.
\<close>

theorem analyze_symptoms_empty_array_counterexample:
  "loads_table [(ustr ''[]'', JArr [])] (ustr ''[]'') = Inr (JArr [])
   \<and> analyze_symptoms (gateway_returning (ustr ''[]'')) (loads_table [(ustr ''[]'', JArr [])])
        [(ustr ''symptom_mappings'', JArr [JObj [(ustr ''condition'', JStr (ustr ''Tinnitus''))]])]
        (ustr ''ringing in ears'')
     = ([(ustr ''symptom_mappings'', JArr [JObj [(ustr ''condition'', JStr (ustr ''Tinnitus''))]])],
        [NoJsonParsed (ustr ''[]'')])"
  by (simp add: analyze_symptoms_def map_symptoms_def call_gpt_def gateway_returning_def
        loads_table_def strip_def isspace_def ustr_def)

text \<open>
  C8, amended.  When the completion parses as a JSON array that is not empty, the stored
  \<open>symptom_mappings\<close> become exactly the parsed list (nothing of the earlier list is
  kept) and every other key of the aggregate keeps its value; when the parsed array is
  empty the aggregate is left as it was and the raw text is shown with a warning.
\<close>

theorem analyze_symptoms_replaces:
  assumes "strip note \<noteq> []"
    and "call_gpt complete mapper_system_prompt (mapper_user_prompt note) (ustr ''0.2'')
           = (raw, shown)"
    and "json_loads raw = Inr (JArr xs)"
  shows "(xs \<noteq> [] \<longrightarrow>
            analyze_symptoms complete json_loads app note
              = (dict_set app (ustr ''symptom_mappings'') (JArr xs), shown)
            \<and> dict_get (fst (analyze_symptoms complete json_loads app note))
                  (ustr ''symptom_mappings'') dflt = JArr xs
            \<and> (\<forall>k. k \<noteq> ustr ''symptom_mappings'' \<longrightarrow>
                  dict_get (fst (analyze_symptoms complete json_loads app note)) k dflt
                    = dict_get app k dflt))
       \<and> (xs = [] \<longrightarrow>
            analyze_symptoms complete json_loads app note = (app, shown @ [NoJsonParsed raw]))"
proof -
  from assms(2,3) have m: "map_symptoms complete json_loads note = ((xs, raw), shown)"
    by (simp add: map_symptoms_def)
  show ?thesis
  proof (cases "xs = []")
    case True
    with m assms(1) show ?thesis by (simp add: analyze_symptoms_def)
  next
    case False
    with m assms(1) have
      "analyze_symptoms complete json_loads app note
         = (dict_set app (ustr ''symptom_mappings'') (JArr xs), shown)"
      by (simp add: analyze_symptoms_def)
    with False show ?thesis
      by (simp add: dict_get_set_same dict_get_set_other)
  qed
qed

theorem analyze_symptoms_replaces_witness:
  "dict_get
     (fst (analyze_symptoms (gateway_returning (ustr ''[7]''))
             (loads_table [(ustr ''[7]'', JArr [JInt 7])])
             [(ustr ''symptom_mappings'', JArr [JInt 1, JInt 2]), (ustr ''notes'', JStr (ustr ''n''))]
             (ustr ''cough'')))
     (ustr ''symptom_mappings'') JNull = JArr [JInt 7]
   \<and> dict_get
     (fst (analyze_symptoms (gateway_returning (ustr ''[7]''))
             (loads_table [(ustr ''[7]'', JArr [JInt 7])])
             [(ustr ''symptom_mappings'', JArr [JInt 1, JInt 2]), (ustr ''notes'', JStr (ustr ''n''))]
             (ustr ''cough'')))
     (ustr ''notes'') JNull = JStr (ustr ''n'')"
proof -
  let ?L = "loads_table [(ustr ''[7]'', JArr [JInt 7])]"
  let ?G = "gateway_returning (ustr ''[7]'')"
  let ?A = "[(ustr ''symptom_mappings'', JArr [JInt 1, JInt 2]), (ustr ''notes'', JStr (ustr ''n''))]"
  have s: "strip (ustr ''cough'') \<noteq> []"
    by (simp add: strip_def isspace_def ustr_def)
  have c: "call_gpt ?G mapper_system_prompt (mapper_user_prompt (ustr ''cough'')) (ustr ''0.2'')
             = (ustr ''[7]'', [])"
    by (simp add: call_gpt_def gateway_returning_def strip_def isspace_def ustr_def)
  have l: "?L (ustr ''[7]'') = Inr (JArr [JInt 7])"
    by (simp add: loads_table_def ustr_def)
  have n: "ustr ''notes'' \<noteq> ustr ''symptom_mappings''"
    by (simp add: ustr_def)
  have o: "dict_get ?A (ustr ''notes'') JNull = JStr (ustr ''n'')"
    by (simp add: dict_get_def ustr_def)
  let ?R = "fst (analyze_symptoms ?G ?L ?A (ustr ''cough''))"
  have ne: "[JInt 7] \<noteq> []" by simp
  from analyze_symptoms_replaces
         [where json_loads = ?L and complete = ?G and app = ?A and dflt = JNull, OF s c l] ne
  have a: "dict_get ?R (ustr ''symptom_mappings'') JNull = JArr [JInt 7]"
    and b: "\<forall>k. k \<noteq> ustr ''symptom_mappings'' \<longrightarrow> dict_get ?R k JNull = dict_get ?A k JNull"
    by blast+
  from b n have "dict_get ?R (ustr ''notes'') JNull = dict_get ?A (ustr ''notes'') JNull"
    by blast
  with o have "dict_get ?R (ustr ''notes'') JNull = JStr (ustr ''n'')" by simp
  with a show ?thesis by blast
qed

section \<open>Properties of the evidence summary\<close>

lemma joined_texts_loop_pieces:
  "joined_texts_loop rp ds acc = Inr jt \<Longrightarrow>
   \<exists>ps. jt = acc @ ps \<and>
     (ps = [] \<longrightarrow> (\<forall>d \<in> set ds. doc_contribution rp d = Inr None)) \<and>
     (\<forall>c cs. ps = c # cs \<longrightarrow>
        (\<exists>pre d post. ds = pre @ d # post
           \<and> (\<forall>p \<in> set pre. doc_contribution rp p = Inr None)
           \<and> doc_contribution rp d = Inr (Some c)))"
proof (induction ds arbitrary: acc jt)
  case Nil
  then show ?case by simp
next
  case (Cons d ds)
  show ?case
  proof (cases "doc_contribution rp d")
    case (Inl e)
    with Cons.prems show ?thesis by (simp add: andthen_def)
  next
    case (Inr c)
    show ?thesis
    proof (cases c)
      case None
      with Inr Cons.prems have "joined_texts_loop rp ds acc = Inr jt"
        by (simp add: andthen_def)
      from Cons.IH [OF this] obtain ps where ps: "jt = acc @ ps"
        "ps = [] \<longrightarrow> (\<forall>d \<in> set ds. doc_contribution rp d = Inr None)"
        "\<forall>c cs. ps = c # cs \<longrightarrow>
          (\<exists>pre d post. ds = pre @ d # post
             \<and> (\<forall>p \<in> set pre. doc_contribution rp p = Inr None)
             \<and> doc_contribution rp d = Inr (Some c))" by blast
      have "\<exists>pre d' post. d # ds = pre @ d' # post
             \<and> (\<forall>p \<in> set pre. doc_contribution rp p = Inr None)
             \<and> doc_contribution rp d' = Inr (Some c')" if "ps = c' # cs" for c' cs
      proof -
        from ps(3) that obtain pre d' post where x: "ds = pre @ d' # post"
          "\<forall>p \<in> set pre. doc_contribution rp p = Inr None"
          "doc_contribution rp d' = Inr (Some c')" by blast
        from x(1) have "d # ds = (d # pre) @ d' # post" by simp
        moreover from x(2) Inr None
        have "\<forall>p \<in> set (d # pre). doc_contribution rp p = Inr None" by simp
        ultimately show ?thesis using x(3) by blast
      qed
      with ps(1,2) Inr None show ?thesis by auto
    next
      case (Some piece)
      with Inr Cons.prems have "joined_texts_loop rp ds (acc @ [piece]) = Inr jt"
        by (simp add: andthen_def)
      from Cons.IH [OF this] obtain ps where "jt = (acc @ [piece]) @ ps" by blast
      then have j: "jt = acc @ (piece # ps)" by simp
      have "d # ds = [] @ d # ds" by simp
      with Inr Some have "\<exists>pre d' post. d # ds = pre @ d' # post
             \<and> (\<forall>p \<in> set pre. doc_contribution rp p = Inr None)
             \<and> doc_contribution rp d' = Inr (Some piece)"
        by (metis empty_iff empty_set)
      with j show ?thesis by auto
    qed
  qed
qed

lemma join_head: "prefix p (join sep (p # ps))"
  by (cases ps) simp_all

lemma prefix_take_take: "prefix c xs \<Longrightarrow> prefix (take n c) (take n xs)"
  by (auto simp: prefix_def)

text \<open>
  C5, amended.  When the contributions of the documents, joined by blank lines, are longer
  than 12000 characters, the blob is exactly their first 12000 characters.  It begins with
  the contribution of the first document that has text (the name, a colon, a line feed,
  then the text), cut at 12000 if longer; documents without text before it add nothing.
\<close>

theorem evidence_blob_truncated:
  assumes "dict_index app (ustr ''documents'') = Inr docs"
    and "py_iter docs = Inr ds"
    and "joined_texts_loop rp ds [] = Inr jt"
    and "12000 < length (join [10, 10] jt)"
  shows "\<exists>blob. evidence_blob rp app = Inr blob
           \<and> length blob = 12000
           \<and> blob = take 12000 (join [10, 10] jt)
           \<and> (\<exists>pre d post c. ds = pre @ d # post
                 \<and> (\<forall>p \<in> set pre. doc_contribution rp p = Inr None)
                 \<and> doc_contribution rp d = Inr (Some c)
                 \<and> prefix (take 12000 c) blob)"
proof -
  let ?blob = "take 12000 (join [10, 10] jt)"
  from assms(1-3) have e: "evidence_blob rp app = Inr ?blob"
    by (simp add: evidence_blob_def andthen_def)
  from assms(4) have len: "length ?blob = 12000" by simp
  from assms(4) have "jt \<noteq> []" by auto
  then obtain c cs where jt: "jt = c # cs" by (cases jt) auto
  from joined_texts_loop_pieces [OF assms(3)] jt obtain pre d post
    where x: "ds = pre @ d # post" "\<forall>p \<in> set pre. doc_contribution rp p = Inr None"
      "doc_contribution rp d = Inr (Some c)" by auto
  from jt have "prefix c (join [10, 10] jt)" by (simp add: join_head)
  then have "prefix (take 12000 c) ?blob" by (rule prefix_take_take)
  with e len x show ?thesis by blast
qed


theorem evidence_blob_truncated_witness:
  "\<exists>blob. evidence_blob repr_unused
       [(ustr ''documents'',
         JArr [JObj [(ustr ''name'', JStr (ustr ''a'')), (ustr ''text'', JStr (ustr ''x''))],
               JObj [(ustr ''name'', JStr (ustr ''b'')),
                     (ustr ''text'', JStr (replicate 12001 121))]])] = Inr blob
     \<and> length blob = 12000
     \<and> blob = take 12000
         (join [10, 10] [ustr ''a:'' @ [10] @ ustr ''x'', ustr ''b:'' @ [10] @ replicate 12001 121])"
proof -
  let ?d1 = "JObj [(ustr ''name'', JStr (ustr ''a'')), (ustr ''text'', JStr (ustr ''x''))]"
  let ?d2 = "JObj [(ustr ''name'', JStr (ustr ''b'')), (ustr ''text'', JStr (replicate 12001 121))]"
  let ?app = "[(ustr ''documents'', JArr [?d1, ?d2])]"
  let ?jt = "[ustr ''a:'' @ [10] @ ustr ''x'', ustr ''b:'' @ [10] @ replicate 12001 121]"
  have 1: "dict_index ?app (ustr ''documents'') = Inr (JArr [?d1, ?d2])"
    by (simp add: dict_index_def)
  have 2: "py_iter (JArr [?d1, ?d2]) = Inr [?d1, ?d2]"
    by (simp add: py_iter_def)
  have 3: "joined_texts_loop repr_unused [?d1, ?d2] [] = Inr ?jt"
    by (simp add: doc_contribution_def andthen_def py_get_def dict_get_def py_or_def ustr_def)
  have 4: "12000 < length (join [10, 10] ?jt)"
    by (simp add: ustr_def)
  from evidence_blob_truncated [OF 1 2 3 4] show ?thesis by blast
qed

text \<open>
  C5, the claim as stated fails: with a first document named \<open>a\<close> whose text is
  \<open>x\<close>, and a long second document, the blob has 12000 characters but begins with the
  label \<open>a:\<close>, not with the first document's text.
\<close>

theorem evidence_blob_starts_with_label_counterexample:
  "evidence_blob repr_unused
       [(ustr ''documents'',
         JArr [JObj [(ustr ''name'', JStr (ustr ''a'')), (ustr ''text'', JStr (ustr ''x''))],
               JObj [(ustr ''name'', JStr (ustr ''b'')),
                     (ustr ''text'', JStr (replicate 12001 121))]])]
     = Inr (ustr ''a:'' @ [10] @ ustr ''x'' @ [10, 10] @ ustr ''b:'' @ [10] @ replicate 11991 121)
   \<and> 12000 < length
         (join [10, 10] [ustr ''a:'' @ [10] @ ustr ''x'', ustr ''b:'' @ [10] @ replicate 12001 121])
   \<and> \<not> prefix (ustr ''x'')
         (ustr ''a:'' @ [10] @ ustr ''x'' @ [10, 10] @ ustr ''b:'' @ [10] @ replicate 11991 121)"
  by (simp add: evidence_blob_def dict_index_def py_iter_def doc_contribution_def andthen_def
        py_get_def dict_get_def py_or_def ustr_def)

text \<open>
  C6.  A run of the evidence-summary button in which the gateway raises: the notice is
  shown and the empty string comes back, but the stored summary \<open>old summary\<close> is
  overwritten by it.
\<close>

theorem refresh_evidence_summary_gateway_failure:
  "refresh_evidence_summary repr_unused gateway_failing
       [(ustr ''documents'',
         JArr [JObj [(ustr ''name'', JStr (ustr ''a'')), (ustr ''text'', JStr (ustr ''x''))]]),
        (ustr ''evidence_summary'', JStr (ustr ''old summary''))]
     = Inr ([(ustr ''documents'',
              JArr [JObj [(ustr ''name'', JStr (ustr ''a'')), (ustr ''text'', JStr (ustr ''x''))]]),
             (ustr ''evidence_summary'', JStr [])],
            JStr [], [ModelError ServiceError])"
  by (simp add: refresh_evidence_summary_def evidence_blob_def dict_index_def py_iter_def
        doc_contribution_def andthen_def py_get_def dict_get_def py_or_def call_gpt_def
        gateway_failing_def dict_set_def ustr_def)

text \<open>
  The mapper button, by contrast, leaves the aggregate alone when the gateway raises
  (given that the decoder rejects the empty string, as \<open>json.loads\<close> does).
\<close>

lemma analyze_symptoms_gateway_failure:
  assumes "complete \<lparr>model = ustr ''gpt-4o-mini'', temperature = ustr ''0.2'',
             system_content = mapper_system_prompt,
             user_content = mapper_user_prompt note\<rparr> = Inl e"
    and "json_loads [] = Inl e'"
  shows "fst (analyze_symptoms complete json_loads app note) = app"
  using assms
  by (simp add: analyze_symptoms_def map_symptoms_def call_gpt_def)

theorem analyze_symptoms_gateway_failure_witness:
  "fst (analyze_symptoms gateway_failing (loads_table [])
          [(ustr ''symptom_mappings'', JArr [JInt 1])] (ustr ''cough''))
     = [(ustr ''symptom_mappings'', JArr [JInt 1])]"
proof -
  have g: "gateway_failing \<lparr>model = ustr ''gpt-4o-mini'', temperature = ustr ''0.2'',
             system_content = mapper_system_prompt,
             user_content = mapper_user_prompt (ustr ''cough'')\<rparr> = Inl ServiceError"
    by (simp add: gateway_failing_def)
  have l: "loads_table [] [] = Inl JSONDecodeError"
    by (simp add: loads_table_def)
  from analyze_symptoms_gateway_failure [of gateway_failing "ustr ''cough''" ServiceError
         "loads_table []" JSONDecodeError, OF g l]
  show ?thesis .
qed

section \<open>Properties of the document extractor\<close>

lemma utf8_decode_ignore_total: "\<exists>s. utf8_decode Ignore bs = Inr s"
proof (induction bs rule: length_induct)
  case (1 bs)
  show ?case
  proof (cases bs)
    case Nil
    then show ?thesis by simp
  next
    case (Cons b rest)
    have ih: "\<exists>s. utf8_decode Ignore (drop k rest) = Inr s" for k
      using 1 Cons by simp
    show ?thesis
    proof (cases "decode_one (b # rest)")
      case (Scalar cp n)
      from ih [of "n - 1"] obtain s where "utf8_decode Ignore (drop (n - 1) rest) = Inr s" ..
      with Cons Scalar show ?thesis by (simp add: andthen_def)
    next
      case (Malformed n)
      from ih [of "n - 1"] obtain s where "utf8_decode Ignore (drop (n - 1) rest) = Inr s" ..
      with Cons Malformed show ?thesis by simp
    qed
  qed
qed

lemma utf8_decode_strict_ignore:
  "utf8_decode Strict bs = Inr t \<Longrightarrow> utf8_decode Ignore bs = Inr t"
proof (induction bs arbitrary: t rule: length_induct)
  case (1 bs)
  show ?case
  proof (cases bs)
    case Nil
    with 1 show ?thesis by simp
  next
    case (Cons b rest)
    show ?thesis
    proof (cases "decode_one (b # rest)")
      case (Scalar cp n)
      with 1(2) Cons obtain s where s: "utf8_decode Strict (drop (n - 1) rest) = Inr s"
        and t: "t = cp # s"
        by (auto simp: andthen_def split: sum.splits)
      have "length (drop (n - 1) rest) < length bs" using Cons by simp
      with 1(1) s have "utf8_decode Ignore (drop (n - 1) rest) = Inr s" by blast
      with Cons Scalar t show ?thesis by (simp add: andthen_def)
    next
      case (Malformed n)
      with 1(2) Cons show ?thesis by simp
    qed
  qed
qed

lemma utf8_decode_ascii:
  "\<forall>b \<in> set bs. b < 128 \<Longrightarrow> utf8_decode mode bs = Inr bs"
  by (induction bs) (simp_all add: andthen_def)

lemma utf8_decode_ignore_length:
  "utf8_decode Ignore bs = Inr s \<Longrightarrow> length s \<le> length bs"
proof (induction bs arbitrary: s rule: length_induct)
  case (1 bs)
  show ?case
  proof (cases bs)
    case Nil
    with 1 show ?thesis by simp
  next
    case (Cons b rest)
    show ?thesis
    proof (cases "decode_one (b # rest)")
      case (Scalar cp n)
      with 1(2) Cons obtain s' where s: "utf8_decode Ignore (drop (n - 1) rest) = Inr s'"
        and t: "s = cp # s'"
        by (auto simp: andthen_def split: sum.splits)
      have "length (drop (n - 1) rest) < length bs" using Cons by simp
      with 1(1) s have "length s' \<le> length (drop (n - 1) rest)" by blast
      with Cons t show ?thesis by simp
    next
      case (Malformed n)
      with 1(2) Cons have s: "utf8_decode Ignore (drop (n - 1) rest) = Inr s" by simp
      have "length (drop (n - 1) rest) < length bs" using Cons by simp
      with 1(1) s have "length s \<le> length (drop (n - 1) rest)" by blast
      with Cons show ?thesis by simp
    qed
  qed
qed

text \<open>
  C7, amended.  For a declared media type that begins with \<open>text/\<close>, extraction always
  returns a string and shows no notice: the decoding with \<open>errors="ignore"\<close> never
  raises, so the \<open>except\<close> branch that would give the empty string is never taken.
  The result is the UTF-8 decoding of the bytes with every malformed run left out: it is
  never longer than the input, it is the strict decoding whenever that exists, and it is
  the input itself when all bytes are ASCII.
\<close>

theorem extract_text_from_bytes_text:
  assumes "prefix (ustr ''text/'') m"
  shows "\<exists>text. extract_text_from_bytes libs content (Some m) name = (text, [])
           \<and> bytes_decode Ignore content = Inr text
           \<and> length text \<le> length content
           \<and> (\<forall>t. bytes_decode Strict content = Inr t \<longrightarrow> text = t)
           \<and> ((\<forall>b \<in> set content. b < 128) \<longrightarrow> text = map unat content)"
proof -
  obtain tx where d: "bytes_decode Ignore content = Inr tx"
    using utf8_decode_ignore_total [of "map unat content"] by (auto simp: bytes_decode_def)
  with assms have e: "extract_text_from_bytes libs content (Some m) name = (tx, [])"
    by (simp add: extract_text_from_bytes_def)
  from d have l: "length tx \<le> length content"
    using utf8_decode_ignore_length [of "map unat content" tx] by (simp add: bytes_decode_def)
  have s: "tx = t" if "bytes_decode Strict content = Inr t" for t
    using that d utf8_decode_strict_ignore [of "map unat content" t]
    by (simp add: bytes_decode_def)
  have a: "tx = map unat content" if "\<forall>b \<in> set content. b < 128"
  proof -
    from that have "\<forall>n \<in> set (map unat content). n < 128"
      by (auto simp: word_less_nat_alt)
    then have "utf8_decode Ignore (map unat content) = Inr (map unat content)"
      by (rule utf8_decode_ascii)
    with d show ?thesis by (simp add: bytes_decode_def)
  qed
  from e d l s a show ?thesis by blast
qed

theorem extract_text_from_bytes_text_witness:
  "extract_text_from_bytes no_libraries [0x68, 0x69] (Some (ustr ''text/plain'')) (ustr ''n.txt'')
     = (ustr ''hi'', [])"
proof -
  have p: "prefix (ustr ''text/'') (ustr ''text/plain'')"
    by (simp add: ustr_def)
  have a: "\<forall>b \<in> set [0x68, 0x69 :: byte]. b < 128" by simp
  from extract_text_from_bytes_text [OF p, of no_libraries "[0x68, 0x69]" "ustr ''n.txt''"] a
  obtain tx where
    "extract_text_from_bytes no_libraries [0x68, 0x69] (Some (ustr ''text/plain'')) (ustr ''n.txt'')
       = (tx, [])"
    and "tx = map unat [0x68, 0x69 :: byte]" by blast
  then show ?thesis by (simp add: ustr_def)
qed

text \<open>
  C7, the claim as stated fails: the byte FF between \<open>a\<close> and \<open>b\<close> is dropped, so the
  text is \<open>ab\<close>; decoding with replacement would give U+FFFD in its place.
\<close>

theorem extract_text_drops_bad_bytes_counterexample:
  "extract_text_from_bytes no_libraries [0x61, 0xFF, 0x62] (Some (ustr ''text/plain''))
       (ustr ''n.txt'') = (ustr ''ab'', [])
   \<and> bytes_decode Replace [0x61, 0xFF, 0x62] = Inr [97, 65533, 98]
   \<and> bytes_decode Replace [0x61, 0xFF, 0x62] \<noteq> Inr (ustr ''ab'')"
  by (simp add: extract_text_from_bytes_def bytes_decode_def andthen_def ustr_def)

section \<open>Properties of the upload loop\<close>

lemma dict_index_set_same: "dict_index (dict_set d k v) k = Inr v"
  by (simp add: dict_index_def dict_set_def update_conv')

lemma ids_of_snoc:
  "ids_of xs = Inr ids \<Longrightarrow> py_get d (ustr ''id'') JNull = Inr i
   \<Longrightarrow> ids_of (xs @ [d]) = Inr (ids @ [i])"
proof (induction xs arbitrary: ids)
  case Nil
  then show ?case by (simp add: andthen_def)
next
  case (Cons x xs)
  from Cons.prems(1) obtain j js where j: "py_get x (ustr ''id'') JNull = Inr j"
    and js: "ids_of xs = Inr js" and ids: "ids = j # js"
    by (auto simp: andthen_def split: sum.splits)
  from Cons.IH [OF js Cons.prems(2)] j ids show ?case by (simp add: andthen_def)
qed

lemma doc_entry_id: "py_get (doc_entry up now text) (ustr ''id'') JNull = Inr (JStr (doc_id_of up))"
  by (simp add: doc_entry_def py_get_def dict_get_def)

lemma process_upload_then_duplicate:
  assumes "process_upload libs app u1 t1 = Inr (app', s1)"
    and "doc_id_of u2 = doc_id_of u1"
  shows "process_upload libs app' u2 t2 = Inr (app', [])"
proof -
  from assms(1) obtain docs ds ids where d: "dict_index app (ustr ''documents'') = Inr docs"
    and i: "py_iter docs = Inr ds" and s: "ids_of ds = Inr ids"
    by (auto simp: process_upload_def andthen_def split: sum.splits)
  show ?thesis
  proof (cases "JStr (doc_id_of u1) \<in> set ids")
    case True
    with assms(1) d i s have "app' = app"
      by (simp add: process_upload_def andthen_def)
    with True d i s assms(2) show ?thesis
      by (simp add: process_upload_def andthen_def)
  next
    case False
    obtain tx shown where
      x: "extract_text_from_bytes libs (up_value u1) (up_type u1) (up_name u1) = (tx, shown)"
      by (cases "extract_text_from_bytes libs (up_value u1) (up_type u1) (up_name u1)")
    from assms(1) d i s False x obtain stored where st: "docs = JArr stored"
      by (cases docs) (simp_all add: process_upload_def andthen_def)
    from assms(1) d i s False x st
    have app': "app' = dict_set app (ustr ''documents'') (JArr (stored @ [doc_entry u1 t1 tx]))"
      by (simp add: process_upload_def andthen_def)
    from i st have ds: "ds = stored" by (simp add: py_iter_def)
    from app' have d': "dict_index app' (ustr ''documents'')
                          = Inr (JArr (stored @ [doc_entry u1 t1 tx]))"
      by (simp add: dict_index_set_same)
    have i': "py_iter (JArr (stored @ [doc_entry u1 t1 tx])) = Inr (stored @ [doc_entry u1 t1 tx])"
      by (simp add: py_iter_def)
    from s ds have "ids_of (stored @ [doc_entry u1 t1 tx]) = Inr (ids @ [JStr (doc_id_of u1)])"
      by (simp add: ids_of_snoc doc_entry_id)
    with d' i' assms(2) show ?thesis
      by (simp add: process_upload_def andthen_def)
  qed
qed

text \<open>
  C2.  Two uploads with the same name and the same size, whatever their contents: handling
  both gives the same outcome as handling the first alone; once the first has been
  handled, the second is skipped and leaves the aggregate as it is; and starting from no
  stored documents exactly one entry is stored, the one of the first upload.
\<close>

theorem upload_same_id_skipped:
  assumes "up_name u1 = up_name u2"
    and "length (up_value u1) = length (up_value u2)"
  shows "upload_loop libs [(u1, t1), (u2, t2)] app shown = upload_loop libs [(u1, t1)] app shown
       \<and> (\<forall>app' s. process_upload libs app u1 t1 = Inr (app', s)
             \<longrightarrow> process_upload libs app' u2 t2 = Inr (app', []))
       \<and> (dict_index app (ustr ''documents'') = Inr (JArr [])
             \<longrightarrow> (\<exists>app' s text.
                    upload_loop libs [(u1, t1), (u2, t2)] app shown = Inr (app', s)
                    \<and> dict_index app' (ustr ''documents'')
                        = Inr (JArr [doc_entry u1 t1 text])))"
proof -
  from assms have same: "doc_id_of u2 = doc_id_of u1" by (simp add: doc_id_of_def)
  have skip: "process_upload libs app' u2 t2 = Inr (app', [])"
    if "process_upload libs app u1 t1 = Inr (app', s)" for app' s
    using that same by (rule process_upload_then_duplicate)
  have eq: "upload_loop libs [(u1, t1), (u2, t2)] app shown
              = upload_loop libs [(u1, t1)] app shown"
  proof (cases "process_upload libs app u1 t1")
    case (Inl e)
    then show ?thesis by (simp add: andthen_def)
  next
    case (Inr r)
    obtain app' s where r: "r = (app', s)" by (cases r)
    with Inr skip have "process_upload libs app' u2 t2 = Inr (app', [])" by blast
    with Inr r show ?thesis by (simp add: andthen_def)
  qed
  have one: "\<exists>app' s tx.
               upload_loop libs [(u1, t1), (u2, t2)] app shown = Inr (app', s)
               \<and> dict_index app' (ustr ''documents'') = Inr (JArr [doc_entry u1 t1 tx])"
    if e: "dict_index app (ustr ''documents'') = Inr (JArr [])"
  proof -
    obtain tx sh where
      x: "extract_text_from_bytes libs (up_value u1) (up_type u1) (up_name u1) = (tx, sh)"
      by (cases "extract_text_from_bytes libs (up_value u1) (up_type u1) (up_name u1)")
    let ?app' = "dict_set app (ustr ''documents'') (JArr [doc_entry u1 t1 tx])"
    from e x have "process_upload libs app u1 t1 = Inr (?app', sh)"
      by (simp add: process_upload_def andthen_def py_iter_def)
    then have "upload_loop libs [(u1, t1)] app shown = Inr (?app', shown @ sh)"
      by (simp add: andthen_def)
    with eq have "upload_loop libs [(u1, t1), (u2, t2)] app shown = Inr (?app', shown @ sh)"
      by simp
    moreover have "dict_index ?app' (ustr ''documents'') = Inr (JArr [doc_entry u1 t1 tx])"
      by (rule dict_index_set_same)
    ultimately show ?thesis by blast
  qed
  from eq skip one show ?thesis by blast
qed

theorem upload_same_id_skipped_witness:
  "upload_loop no_libraries
     [(\<lparr>up_name = ustr ''a.txt'', up_type = Some (ustr ''text/plain''), up_value = [0x41]\<rparr>,
       ustr ''2024-01-01T00:00:00''),
      (\<lparr>up_name = ustr ''a.txt'', up_type = Some (ustr ''text/plain''), up_value = [0x42]\<rparr>,
       ustr ''2024-01-01T00:00:01'')]
     [(ustr ''documents'', JArr [])] []
   = Inr ([(ustr ''documents'',
            JArr [JObj [(ustr ''id'', JStr (ustr ''a.txt:1'')),
                        (ustr ''name'', JStr (ustr ''a.txt'')),
                        (ustr ''mime'', JStr (ustr ''text/plain'')),
                        (ustr ''size'', JInt 1),
                        (ustr ''uploaded_at'', JStr (ustr ''2024-01-01T00:00:00Z'')),
                        (ustr ''text'', JStr (ustr ''A'')),
                        (ustr ''notes'', JStr [])]])], [])"
proof -
  let ?u1 = "\<lparr>up_name = ustr ''a.txt'', up_type = Some (ustr ''text/plain''), up_value = [0x41]\<rparr>"
  let ?u2 = "\<lparr>up_name = ustr ''a.txt'', up_type = Some (ustr ''text/plain''), up_value = [0x42]\<rparr>"
  have n: "up_name ?u1 = up_name ?u2" by simp
  have l: "length (up_value ?u1) = length (up_value ?u2)" by simp
  have "upload_loop no_libraries [(?u1, ustr ''2024-01-01T00:00:00'')]
          [(ustr ''documents'', JArr [])] []
        = Inr ([(ustr ''documents'',
            JArr [JObj [(ustr ''id'', JStr (ustr ''a.txt:1'')),
                        (ustr ''name'', JStr (ustr ''a.txt'')),
                        (ustr ''mime'', JStr (ustr ''text/plain'')),
                        (ustr ''size'', JInt 1),
                        (ustr ''uploaded_at'', JStr (ustr ''2024-01-01T00:00:00Z'')),
                        (ustr ''text'', JStr (ustr ''A'')),
                        (ustr ''notes'', JStr [])]])], [])"
    by (simp add: process_upload_def andthen_def dict_index_def py_iter_def doc_id_of_def
          doc_entry_def extract_text_from_bytes_def bytes_decode_def dict_set_def str_nat.simps
          ustr_def)
  with upload_same_id_skipped [OF n l, of no_libraries "ustr ''2024-01-01T00:00:00''"
         "ustr ''2024-01-01T00:00:01''" "[(ustr ''documents'', JArr [])]" "[]"]
  show ?thesis by simp
qed

section \<open>Properties of the packet exporter\<close>

lemma strs_of_the_str: "strs_of xs = Inr ss \<Longrightarrow> ss = map the_str xs"
  by (induction xs arbitrary: ss rule: strs_of.induct)
     (auto simp: andthen_def split: sum.splits)

lemma strs_of_all_str: "list_all is_str xs \<Longrightarrow> strs_of xs = Inr (map the_str xs)"
  by (induction xs rule: strs_of.induct) (auto simp: andthen_def)

lemma build_unfold:
  "build_full_claim_packet rp now a =
     andthen (packet_sections rp a) (\<lambda>sections.
     andthen (strs_of sections) (\<lambda>ss.
       Inr (ustr ''VA ClaimMate Claim Packet'' @ [10] @ ustr ''Generated: '' @ now @ ustr ''Z''
              @ [10] @ join [10] ([] # ss))))"
  by (cases "packet_sections rp a")
     (auto simp: build_full_claim_packet_def py_join_def andthen_def split: sum.splits)

lemma build_modulo_timestamp:
  "(build_full_claim_packet rp now a = Inr out \<longrightarrow>
      (\<exists>rest. out = ustr ''VA ClaimMate Claim Packet'' @ [10]
                      @ ustr ''Generated: '' @ now @ ustr ''Z'' @ [10] @ rest
         \<and> (\<forall>now'. build_full_claim_packet rp now' a
                = Inr (ustr ''VA ClaimMate Claim Packet'' @ [10]
                       @ ustr ''Generated: '' @ now' @ ustr ''Z'' @ [10] @ rest))))
   \<and> (build_full_claim_packet rp now a = Inl e \<longrightarrow>
        (\<forall>now'. build_full_claim_packet rp now' a = Inl e))"
  by (auto simp: build_unfold andthen_def split: sum.splits)

lemma packet_sections_layout:
  assumes "packet_sections rp a = Inr sections"
  shows "\<exists>pl il ml cl.
           sections =
             [JStr (ustr ''Veteran profile''), JStr (ustr ''----------------'')]
             @ pl
             @ [JStr [], JStr (ustr ''Claimed issues''), JStr (ustr ''-------------'')]
             @ il
             @ [JStr [], JStr (ustr ''Symptom to condition mappings''),
                JStr (ustr ''-----------------------------'')]
             @ ml
             @ [JStr [], JStr (ustr ''Evidence summary''), JStr (ustr ''----------------''),
                py_or (dict_get a (ustr ''evidence_summary'') (JStr [])) (JStr no_summary),
                JStr [], JStr (ustr ''Saved personal statements''),
                JStr (ustr ''-------------------------'')]
             @ cl"
  using assms
  by (auto simp: packet_sections_def andthen_def Let_def split: sum.splits)

lemma build_layout:
  assumes "build_full_claim_packet rp now a = Inr out"
  shows "\<exists>pl il ml es cl.
           out = join [10]
             ([ustr ''VA ClaimMate Claim Packet'', ustr ''Generated: '' @ now @ ustr ''Z'', [],
               ustr ''Veteran profile'', ustr ''----------------'']
              @ pl
              @ [[], ustr ''Claimed issues'', ustr ''-------------'']
              @ il
              @ [[], ustr ''Symptom to condition mappings'', ustr ''-----------------------------'']
              @ ml
              @ [[], ustr ''Evidence summary'', ustr ''----------------'', es,
                 [], ustr ''Saved personal statements'', ustr ''-------------------------'']
              @ cl)
           \<and> (\<not> truthy (dict_get a (ustr ''evidence_summary'') (JStr [])) \<longrightarrow> es = no_summary)"
proof -
  from assms obtain sections ss where s: "packet_sections rp a = Inr sections"
    and j: "strs_of ([JStr (ustr ''VA ClaimMate Claim Packet''),
                      JStr (ustr ''Generated: '' @ now @ ustr ''Z''), JStr []] @ sections) = Inr ss"
    and o: "out = join [10] ss"
    by (auto simp: build_full_claim_packet_def py_join_def andthen_def split: sum.splits)
  from packet_sections_layout [OF s] obtain pl il ml cl where l:
    "sections =
             [JStr (ustr ''Veteran profile''), JStr (ustr ''----------------'')]
             @ pl
             @ [JStr [], JStr (ustr ''Claimed issues''), JStr (ustr ''-------------'')]
             @ il
             @ [JStr [], JStr (ustr ''Symptom to condition mappings''),
                JStr (ustr ''-----------------------------'')]
             @ ml
             @ [JStr [], JStr (ustr ''Evidence summary''), JStr (ustr ''----------------''),
                py_or (dict_get a (ustr ''evidence_summary'') (JStr [])) (JStr no_summary),
                JStr [], JStr (ustr ''Saved personal statements''),
                JStr (ustr ''-------------------------'')]
             @ cl" by blast
  let ?es = "the_str (py_or (dict_get a (ustr ''evidence_summary'') (JStr [])) (JStr no_summary))"
  from strs_of_the_str [OF j] l
  have "ss = [ustr ''VA ClaimMate Claim Packet'', ustr ''Generated: '' @ now @ ustr ''Z'', [],
               ustr ''Veteran profile'', ustr ''----------------'']
              @ map the_str pl
              @ [[], ustr ''Claimed issues'', ustr ''-------------'']
              @ map the_str il
              @ [[], ustr ''Symptom to condition mappings'', ustr ''-----------------------------'']
              @ map the_str ml
              @ [[], ustr ''Evidence summary'', ustr ''----------------'', ?es,
                 [], ustr ''Saved personal statements'', ustr ''-------------------------'']
              @ map the_str cl"
    by simp
  moreover have "\<not> truthy (dict_get a (ustr ''evidence_summary'') (JStr [])) \<longrightarrow> ?es = no_summary"
    by (simp add: py_or_def)
  ultimately show ?thesis using o by blast
qed

lemma profile_lines_obj:
  "\<exists>ls. profile_lines rp (JObj d) fs = Inr ls \<and> list_all is_str ls"
proof (induction fs)
  case Nil
  show ?case by simp
next
  case (Cons f fs)
  obtain key label where f: "f = (key, label)" by (cases f)
  from Cons obtain ls where "profile_lines rp (JObj d) fs = Inr ls" "list_all is_str ls"
    by blast
  with f show ?case by (simp add: andthen_def py_get_def)
qed

lemma issue_lines_typed:
  "list_all (obj_with_text (ustr ''details'')) xs
   \<Longrightarrow> \<exists>ls. issue_lines rp xs = Inr ls \<and> list_all is_str ls"
proof (induction xs)
  case Nil
  show ?case by simp
next
  case (Cons i xs)
  then obtain ls where ls: "issue_lines rp xs = Inr ls" "list_all is_str ls" by auto
  from Cons.prems obtain d where i: "i = JObj d"
    and t: "text_or_nothing (dict_get d (ustr ''details'') JNull)"
    by (cases i) (simp_all add: obj_with_text_def)
  show ?case
  proof (cases "truthy (dict_get d (ustr ''label'') JNull)")
    case False
    with i ls show ?thesis by (simp add: andthen_def py_get_def)
  next
    case True
    show ?thesis
    proof (cases "truthy (dict_get d (ustr ''details'') JNull)")
      case False
      with True i ls show ?thesis
        by (simp add: andthen_def py_get_def py_or_def)
    next
      case dt: True
      with t obtain s where "dict_get d (ustr ''details'') JNull = JStr s"
        by (cases "dict_get d (ustr ''details'') JNull") (simp_all add: text_or_nothing_def)
      with dt True i ls show ?thesis
        by (simp add: andthen_def py_get_def py_or_def)
    qed
  qed
qed

lemma mapping_lines_typed:
  "list_all is_obj xs \<Longrightarrow> \<exists>ls. mapping_lines rp xs = Inr ls \<and> list_all is_str ls"
proof (induction xs)
  case Nil
  show ?case by simp
next
  case (Cons m xs)
  then obtain ls where ls: "mapping_lines rp xs = Inr ls" "list_all is_str ls" by auto
  from Cons.prems obtain d where "m = JObj d"
    by (cases m) simp_all
  with ls show ?case by (simp add: andthen_def py_get_def)
qed

lemma claim_lines_typed:
  "list_all (obj_with_text (ustr ''body'')) xs
   \<Longrightarrow> \<exists>ls. claim_lines rp xs = Inr ls \<and> list_all is_str ls"
proof (induction xs)
  case Nil
  show ?case by simp
next
  case (Cons c xs)
  then obtain ls where ls: "claim_lines rp xs = Inr ls" "list_all is_str ls" by auto
  from Cons.prems obtain d where c: "c = JObj d"
    and t: "text_or_nothing (dict_get d (ustr ''body'') JNull)"
    by (cases c) (simp_all add: obj_with_text_def)
  from t have "is_str (py_or (dict_get d (ustr ''body'') JNull) (JStr []))"
    by (cases "dict_get d (ustr ''body'') JNull")
       (simp_all add: text_or_nothing_def py_or_def)
  with c ls show ?case by (simp add: andthen_def py_get_def)
qed

lemma build_well_typed:
  assumes "well_typed a"
  shows "\<exists>out. build_full_claim_packet rp now a = Inr out"
proof -
  from assms obtain d where p: "dict_get a (ustr ''veteran_profile'') (JObj []) = JObj d"
    by (cases "dict_get a (ustr ''veteran_profile'') (JObj [])")
       (simp_all add: well_typed_def)
  from assms obtain iss where i: "dict_get a (ustr ''issues'') (JArr []) = JArr iss"
    and it: "list_all (obj_with_text (ustr ''details'')) iss"
    by (cases "dict_get a (ustr ''issues'') (JArr [])")
       (simp_all add: well_typed_def list_of_def)
  from assms obtain ms where m: "dict_get a (ustr ''symptom_mappings'') (JArr []) = JArr ms"
    and mt: "list_all is_obj ms"
    by (cases "dict_get a (ustr ''symptom_mappings'') (JArr [])")
       (simp_all add: well_typed_def list_of_def)
  from assms obtain cs where c: "dict_get a (ustr ''claims'') (JArr []) = JArr cs"
    and ct: "list_all (obj_with_text (ustr ''body'')) cs"
    by (cases "dict_get a (ustr ''claims'') (JArr [])")
       (simp_all add: well_typed_def list_of_def)
  from assms have "text_or_nothing (dict_get a (ustr ''evidence_summary'') (JStr []))"
    by (simp add: well_typed_def)
  then have e: "is_str (py_or (dict_get a (ustr ''evidence_summary'') (JStr [])) (JStr no_summary))"
    by (cases "dict_get a (ustr ''evidence_summary'') (JStr [])")
       (simp_all add: text_or_nothing_def py_or_def)
  obtain pl where pl: "profile_lines rp (JObj d) packet_profile_fields = Inr pl" "list_all is_str pl"
    using profile_lines_obj by blast
  obtain il where il: "issue_lines rp iss = Inr il" "list_all is_str il"
    using issue_lines_typed [OF it] by blast
  obtain ml where ml: "mapping_lines rp ms = Inr ml" "list_all is_str ml"
    using mapping_lines_typed [OF mt] by blast
  obtain cl where cl: "claim_lines rp cs = Inr cl" "list_all is_str cl"
    using claim_lines_typed [OF ct] by blast
  let ?sections = "[JStr (ustr ''Veteran profile''), JStr (ustr ''----------------'')]
             @ pl
             @ [JStr [], JStr (ustr ''Claimed issues''), JStr (ustr ''-------------'')]
             @ il
             @ [JStr [], JStr (ustr ''Symptom to condition mappings''),
                JStr (ustr ''-----------------------------'')]
             @ ml
             @ [JStr [], JStr (ustr ''Evidence summary''), JStr (ustr ''----------------''),
                py_or (dict_get a (ustr ''evidence_summary'') (JStr [])) (JStr no_summary),
                JStr [], JStr (ustr ''Saved personal statements''),
                JStr (ustr ''-------------------------'')]
             @ cl"
  from p i m c pl(1) il(1) ml(1) cl(1) have s: "packet_sections rp a = Inr ?sections"
    by (simp add: packet_sections_def andthen_def py_iter_def)
  from pl(2) il(2) ml(2) cl(2) e have "list_all is_str ?sections"
    by simp
  then have "strs_of ?sections = Inr (map the_str ?sections)"
    by (rule strs_of_all_str)
  with s show ?thesis
    by (simp only: build_unfold andthen_def sum.case) blast
qed

lemma build_empty_aggregate:
  "build_full_claim_packet rp now (merge_defaults []) =
     Inr (join [10]
       [ustr ''VA ClaimMate Claim Packet'', ustr ''Generated: '' @ now @ ustr ''Z'', [],
        ustr ''Veteran profile'', ustr ''----------------'', [],
        ustr ''Claimed issues'', ustr ''-------------'', [],
        ustr ''Symptom to condition mappings'', ustr ''-----------------------------'', [],
        ustr ''Evidence summary'', ustr ''----------------'', ustr ''[No summary prepared yet]'', [],
        ustr ''Saved personal statements'', ustr ''-------------------------''])"
  by (simp add: build_full_claim_packet_def packet_sections_def merge_defaults_def defaults_def
        has_key_def dict_set_def dict_get_def packet_profile_fields_def py_get_def py_iter_def
        py_or_def py_join_def no_summary_def andthen_def Let_def ustr_def)

text \<open>
  C9.  Rendering the same aggregate at two times gives two texts that differ only in the
  timestamp line: everything after that line is the same, and if one rendering raises so
  does the other, with the same exception.  A packet that is produced has the five section
  headers with their rules, in the fixed order, around the lines of each section, and the
  line under the evidence header is the placeholder when the summary is absent or empty.
  An aggregate whose values have the types of the data model always yields a packet; for
  the aggregate of defaults (no profile field, no issue, no mapping, no claim) it is the
  text shown.
\<close>

theorem build_full_claim_packet_stable:
  "(build_full_claim_packet rp now a = Inr out \<longrightarrow>
      (\<exists>rest. out = ustr ''VA ClaimMate Claim Packet'' @ [10]
                      @ ustr ''Generated: '' @ now @ ustr ''Z'' @ [10] @ rest
         \<and> (\<forall>now'. build_full_claim_packet rp now' a
                = Inr (ustr ''VA ClaimMate Claim Packet'' @ [10]
                       @ ustr ''Generated: '' @ now' @ ustr ''Z'' @ [10] @ rest))))
   \<and> (build_full_claim_packet rp now a = Inl e \<longrightarrow>
        (\<forall>now'. build_full_claim_packet rp now' a = Inl e))
   \<and> (build_full_claim_packet rp now a = Inr out \<longrightarrow>
        (\<exists>pl il ml es cl.
           out = join [10]
             ([ustr ''VA ClaimMate Claim Packet'', ustr ''Generated: '' @ now @ ustr ''Z'', [],
               ustr ''Veteran profile'', ustr ''----------------'']
              @ pl
              @ [[], ustr ''Claimed issues'', ustr ''-------------'']
              @ il
              @ [[], ustr ''Symptom to condition mappings'', ustr ''-----------------------------'']
              @ ml
              @ [[], ustr ''Evidence summary'', ustr ''----------------'', es,
                 [], ustr ''Saved personal statements'', ustr ''-------------------------'']
              @ cl)
           \<and> (\<not> truthy (dict_get a (ustr ''evidence_summary'') (JStr [])) \<longrightarrow> es = no_summary)))
   \<and> (well_typed a \<longrightarrow> (\<exists>text. build_full_claim_packet rp now a = Inr text))
   \<and> build_full_claim_packet rp now (merge_defaults []) =
       Inr (join [10]
         [ustr ''VA ClaimMate Claim Packet'', ustr ''Generated: '' @ now @ ustr ''Z'', [],
          ustr ''Veteran profile'', ustr ''----------------'', [],
          ustr ''Claimed issues'', ustr ''-------------'', [],
          ustr ''Symptom to condition mappings'', ustr ''-----------------------------'', [],
          ustr ''Evidence summary'', ustr ''----------------'', ustr ''[No summary prepared yet]'', [],
          ustr ''Saved personal statements'', ustr ''-------------------------''])"
proof (intro conjI)
  show "build_full_claim_packet rp now a = Inr out \<longrightarrow>
      (\<exists>rest. out = ustr ''VA ClaimMate Claim Packet'' @ [10]
                      @ ustr ''Generated: '' @ now @ ustr ''Z'' @ [10] @ rest
         \<and> (\<forall>now'. build_full_claim_packet rp now' a
                = Inr (ustr ''VA ClaimMate Claim Packet'' @ [10]
                       @ ustr ''Generated: '' @ now' @ ustr ''Z'' @ [10] @ rest)))"
    using build_modulo_timestamp [of rp now a out e] by (rule conjunct1)
  show "build_full_claim_packet rp now a = Inl e \<longrightarrow>
        (\<forall>now'. build_full_claim_packet rp now' a = Inl e)"
    using build_modulo_timestamp [of rp now a out e] by (rule conjunct2)
  show "build_full_claim_packet rp now a = Inr out \<longrightarrow>
        (\<exists>pl il ml es cl.
           out = join [10]
             ([ustr ''VA ClaimMate Claim Packet'', ustr ''Generated: '' @ now @ ustr ''Z'', [],
               ustr ''Veteran profile'', ustr ''----------------'']
              @ pl
              @ [[], ustr ''Claimed issues'', ustr ''-------------'']
              @ il
              @ [[], ustr ''Symptom to condition mappings'', ustr ''-----------------------------'']
              @ ml
              @ [[], ustr ''Evidence summary'', ustr ''----------------'', es,
                 [], ustr ''Saved personal statements'', ustr ''-------------------------'']
              @ cl)
           \<and> (\<not> truthy (dict_get a (ustr ''evidence_summary'') (JStr [])) \<longrightarrow> es = no_summary))"
    by (rule impI) (rule build_layout)
  show "well_typed a \<longrightarrow> (\<exists>text. build_full_claim_packet rp now a = Inr text)"
    by (rule impI) (rule build_well_typed)
  show "build_full_claim_packet rp now (merge_defaults []) =
       Inr (join [10]
         [ustr ''VA ClaimMate Claim Packet'', ustr ''Generated: '' @ now @ ustr ''Z'', [],
          ustr ''Veteran profile'', ustr ''----------------'', [],
          ustr ''Claimed issues'', ustr ''-------------'', [],
          ustr ''Symptom to condition mappings'', ustr ''-----------------------------'', [],
          ustr ''Evidence summary'', ustr ''----------------'', ustr ''[No summary prepared yet]'', [],
          ustr ''Saved personal statements'', ustr ''-------------------------''])"
    by (rule build_empty_aggregate)
qed

theorem build_full_claim_packet_stable_witness:
  "well_typed
     [(ustr ''veteran_profile'', JObj [(ustr ''full_name'', JStr (ustr ''Ann''))]),
      (ustr ''issues'', JArr [JObj [(ustr ''label'', JStr (ustr ''asthma'')),
                                     (ustr ''details'', JStr [])]]),
      (ustr ''symptom_mappings'', JArr [JObj [(ustr ''condition'', JStr (ustr ''Asthma'')),
                                               (ustr ''icd10'', JStr (ustr ''J45''))]]),
      (ustr ''claims'', JArr []),
      (ustr ''evidence_summary'', JStr [])]
   \<and> build_full_claim_packet repr_unused (ustr ''T2'')
     [(ustr ''veteran_profile'', JObj [(ustr ''full_name'', JStr (ustr ''Ann''))]),
      (ustr ''issues'', JArr [JObj [(ustr ''label'', JStr (ustr ''asthma'')),
                                     (ustr ''details'', JStr [])]]),
      (ustr ''symptom_mappings'', JArr [JObj [(ustr ''condition'', JStr (ustr ''Asthma'')),
                                               (ustr ''icd10'', JStr (ustr ''J45''))]]),
      (ustr ''claims'', JArr []),
      (ustr ''evidence_summary'', JStr [])]
     = Inr (join [10]
         [ustr ''VA ClaimMate Claim Packet'', ustr ''Generated: T2Z'', [],
          ustr ''Veteran profile'', ustr ''----------------'', ustr ''Name: Ann'', [],
          ustr ''Claimed issues'', ustr ''-------------'', ustr ''- asthma '', [],
          ustr ''Symptom to condition mappings'', ustr ''-----------------------------'',
          ustr ''- Asthma | ICD-10 J45 | system: None | rating hint: None | selected: False'', [],
          ustr ''Evidence summary'', ustr ''----------------'', ustr ''[No summary prepared yet]'', [],
          ustr ''Saved personal statements'', ustr ''-------------------------''])"
proof -
  let ?A = "[(ustr ''veteran_profile'', JObj [(ustr ''full_name'', JStr (ustr ''Ann''))]),
      (ustr ''issues'', JArr [JObj [(ustr ''label'', JStr (ustr ''asthma'')),
                                     (ustr ''details'', JStr [])]]),
      (ustr ''symptom_mappings'', JArr [JObj [(ustr ''condition'', JStr (ustr ''Asthma'')),
                                               (ustr ''icd10'', JStr (ustr ''J45''))]]),
      (ustr ''claims'', JArr []),
      (ustr ''evidence_summary'', JStr [])]"
  let ?rest = "join [10]
         [[],
          ustr ''Veteran profile'', ustr ''----------------'', ustr ''Name: Ann'', [],
          ustr ''Claimed issues'', ustr ''-------------'', ustr ''- asthma '', [],
          ustr ''Symptom to condition mappings'', ustr ''-----------------------------'',
          ustr ''- Asthma | ICD-10 J45 | system: None | rating hint: None | selected: False'', [],
          ustr ''Evidence summary'', ustr ''----------------'', ustr ''[No summary prepared yet]'', [],
          ustr ''Saved personal statements'', ustr ''-------------------------'']"
  let ?out1 = "ustr ''VA ClaimMate Claim Packet'' @ [10]
                 @ ustr ''Generated: '' @ ustr ''T1'' @ ustr ''Z'' @ [10] @ ?rest"
  have w: "well_typed ?A"
    by (simp add: well_typed_def list_of_def obj_with_text_def text_or_nothing_def
          dict_get_def ustr_def)
  have b1: "build_full_claim_packet repr_unused (ustr ''T1'') ?A = Inr ?out1"
    by (simp add: build_full_claim_packet_def packet_sections_def
        dict_get_def packet_profile_fields_def py_get_def py_iter_def
        py_or_def py_join_def no_summary_def andthen_def Let_def ustr_def)
  from build_full_claim_packet_stable [of repr_unused "ustr ''T1''" ?A ?out1] b1
  obtain rest where r: "?out1 = ustr ''VA ClaimMate Claim Packet'' @ [10]
                      @ ustr ''Generated: '' @ ustr ''T1'' @ ustr ''Z'' @ [10] @ rest"
    and n: "\<forall>now'. build_full_claim_packet repr_unused now' ?A
                = Inr (ustr ''VA ClaimMate Claim Packet'' @ [10]
                       @ ustr ''Generated: '' @ now' @ ustr ''Z'' @ [10] @ rest)"
    by blast
  from r have "rest = ?rest" by simp
  with n have "build_full_claim_packet repr_unused (ustr ''T2'') ?A
                = Inr (ustr ''VA ClaimMate Claim Packet'' @ [10]
                       @ ustr ''Generated: '' @ ustr ''T2'' @ ustr ''Z'' @ [10] @ ?rest)"
    by blast
  then have "build_full_claim_packet repr_unused (ustr ''T2'') ?A
     = Inr (join [10]
         [ustr ''VA ClaimMate Claim Packet'', ustr ''Generated: T2Z'', [],
          ustr ''Veteran profile'', ustr ''----------------'', ustr ''Name: Ann'', [],
          ustr ''Claimed issues'', ustr ''-------------'', ustr ''- asthma '', [],
          ustr ''Symptom to condition mappings'', ustr ''-----------------------------'',
          ustr ''- Asthma | ICD-10 J45 | system: None | rating hint: None | selected: False'', [],
          ustr ''Evidence summary'', ustr ''----------------'', ustr ''[No summary prepared yet]'', [],
          ustr ''Saved personal statements'', ustr ''-------------------------''])"
    by (simp add: ustr_def)
  with w show ?thesis by blast
qed

end
